theory Spec2Isabelle
  imports Complex_Main "HOL-Library.Sublist"
begin

section \<open>config/hypercore.ts: the asset-bridge address of a token index\<close>

text \<open>
  JavaScript strings are modelled as \<open>string\<close>: the UTF-8 bytes of the JavaScript string
  (addresses, flags, decimal and hexadecimal numerals are ASCII).

  A JavaScript number is an IEEE 754 double. An integer that a caller writes (a numeric
  literal such as the \<open>tokenIndex\<close> of \<open>config/tokens.ts\<close>, or a JSON number) denotes the nearest
  double, ties going to the even significand of 53 bits; in particular every integer of
  magnitude at most \<open>2 ^ 53\<close> denotes itself. \<open>toNumber\<close> is that rounding. Numbers that are
  not integers, and the overflow to \<open>Infinity\<close> from \<open>2 ^ 1024\<close> on, are outside the model.
\<close>

fun bitLength :: "nat \<Rightarrow> nat" where
  "bitLength n = (if n = 0 then 0 else Suc (bitLength (n div 2)))"

declare bitLength.simps [simp del]

definition toNumber :: "int \<Rightarrow> int" where
  "toNumber i =
     (let n = nat \<bar>i\<bar>;
          excess = bitLength n - 53
      in if excess = 0 then i
         else let q = n div 2 ^ excess;
                  r = n mod 2 ^ excess;
                  half = 2 ^ (excess - 1);
                  significand = (if half < r \<or> (r = half \<and> odd q) then q + 1 else q)
              in sgn i * int (significand * 2 ^ excess))"

definition hexDigits :: string where
  "hexDigits = ''0123456789abcdef''"

fun toHex :: "nat \<Rightarrow> string" where
  "toHex n = (if n < 16 then [hexDigits ! n] else toHex (n div 16) @ [hexDigits ! (n mod 16)])"

declare toHex.simps [simp del]

text \<open>
  \<open>Number.prototype.toString(16)\<close> of an integral double: lowercase digits, most significant
  first, a leading minus sign for a negative number. The digits of a number below \<open>2 ^ 53\<close>
  are exact. From \<open>2 ^ 53\<close> on the result is implementation-defined; Node.js (V8,
  \<open>DoubleToRadixCString\<close>) divides by the radix and writes a zero for every digit that the
  significand does not represent, until the number is below \<open>2 ^ 53\<close>.
\<close>

fun integerDigits16 :: "nat \<Rightarrow> string" where
  "integerDigits16 n =
     (if n < 2 ^ 53 then toHex n else integerDigits16 (n div 16) @ ''0'')"

declare integerDigits16.simps [simp del]

definition numberToString16 :: "int \<Rightarrow> string" where
  "numberToString16 i =
     (if i < 0 then CHR ''-'' # integerDigits16 (nat (- i)) else integerDigits16 (nat i))"

text \<open>\<open>String.prototype.padStart(targetLength, padString)\<close>.\<close>

definition padStart :: "nat \<Rightarrow> string \<Rightarrow> string \<Rightarrow> string" where
  "padStart targetLength padString s =
     (if targetLength \<le> length s \<or> padString = [] then s
      else take (targetLength - length s)
             (concat (replicate (targetLength - length s) padString)) @ s)"

definition toAssetBridgeAddress :: "int \<Rightarrow> string" where
  "toAssetBridgeAddress tokenIndex =
     (let addressLength = 42;
          addressPrefix = ''0x2'';
          indexAsHex = numberToString16 (toNumber tokenIndex);
          addressLengthWithoutPrefix = addressLength - length addressPrefix
      in addressPrefix @ padStart addressLengthWithoutPrefix ''0'' indexAsHex)"

text \<open>
  The reading of a hexadecimal numeral, independent of the printer above: the value of a
  digit is its position in the digit alphabet, and the value of a numeral is positional.
\<close>

fun indexOf :: "'a \<Rightarrow> 'a list \<Rightarrow> nat" where
  "indexOf c [] = 0"
| "indexOf c (x # xs) = (if x = c then 0 else Suc (indexOf c xs))"

definition digitValue :: "char \<Rightarrow> nat" where
  "digitValue c = indexOf c hexDigits"

definition hexValue :: "string \<Rightarrow> nat" where
  "hexValue s = foldl (\<lambda>acc c. 16 * acc + digitValue c) 0 s"

section \<open>The outside world of a flow script\<close>

text \<open>
  A flow script (\<open>src/flowHypeCoreToBsc.ts\<close>, and the \<open>bsc \<rightarrow> HyperCore\<close> flow script with the
  same helpers) talks to the outside world through contract reads, the HyperCore info
  endpoint, child processes and timers. Every \<open>throw\<close> and every rejected promise of the
  source is a value of \<open>error\<close>; the constructor says which statement raised it.
\<close>

datatype error =
    UsageError string
      \<comment> \<open>\<open>new Error(message)\<close> of an input check of \<open>main\<close> or \<open>requireToken\<close>\<close>
  | UnknownToken string
      \<comment> \<open>\<open>Unknown token: ${input}. Known tokens: ...\<close>\<close>
  | ToSignerMismatch string string
      \<comment> \<open>\<open>--to must equal the EVM address of PRIVATE_KEY for this flow. to=... signer=...\<close>\<close>
  | MissingUnderlying string
      \<comment> \<open>\<open>Missing underlying address for ${tokenMeta.name}. Cannot proceed with unwrap.\<close>\<close>
  | TypeError string
      \<comment> \<open>reading a property of \<open>undefined\<close>, calling what is not a function\<close>
  | LibraryError string
      \<comment> \<open>thrown inside viem: \<open>privateKeyToAccount\<close>, \<open>parseUnits\<close>, \<open>readContract\<close>\<close>
  | FetchError string
      \<comment> \<open>\<open>fetch\<close> or \<open>res.json()\<close> rejected\<close>
  | HyperCoreApiError nat string
      \<comment> \<open>\<open>HyperCore API error: ${res.status} ${res.statusText}\<close>\<close>
  | SpawnError string
      \<comment> \<open>the child's \<open>error\<close> event\<close>
  | StepSignal string string
      \<comment> \<open>\<open>${stepName} terminated by signal: ${signal}\<close>\<close>
  | StepExit string "int option"
      \<comment> \<open>\<open>${stepName} failed with exit code ${code}\<close>\<close>
  | Timeout string
      \<comment> \<open>\<open>Timeout waiting for: ${label}\<close>\<close>

text \<open>
  How a child process ended: its \<open>error\<close> event, or its \<open>exit\<close> event with the exit code
  and the signal (each may be \<open>null\<close>).
\<close>

datatype child_outcome =
    SpawnFailed string
  | ChildExit "int option" "string option"

text \<open>
  The history of a run: what the script did to the outside world, in order, together with
  two markers of the poller (its call and its timeout), which are not effects and are
  recorded only so that properties of a run can speak about them.
\<close>

datatype event =
    ReadContract string string string "string list"
      \<comment> \<open>RPC endpoint, contract address, function name, arguments\<close>
  | Fetch string string
      \<comment> \<open>\<open>POST\<close> to the URL, \<open>spotClearinghouseState\<close> of the user\<close>
  | Spawn string string "string list" child_outcome
      \<comment> \<open>step name, script, arguments, and how the child ended\<close>
  | Sleep nat
      \<comment> \<open>\<open>setTimeout\<close> with the delay in milliseconds\<close>
  | PollStart string
  | PollTimedOut string

record world =
  now :: int
  trace :: "event list"

text \<open>The body of the info endpoint's answer, as far as \<open>fetchHyperCoreSpotTotal\<close> reads it.\<close>

record spot_entry =
  tokenNumber :: "int option"
    \<comment> \<open>\<open>Number(b?.token)\<close>; \<open>None\<close> when that is not an integer\<close>
  total :: "string option"
    \<comment> \<open>\<open>String(b.total)\<close>; \<open>None\<close> when \<open>total\<close> is \<open>null\<close> or \<open>undefined\<close>\<close>

text \<open>
  \<open>data?.balances\<close> of the parsed body: absent (\<open>undefined\<close> or \<open>null\<close>, also when \<open>data\<close> itself is
  \<open>null\<close> or not an object), an array, or a value that is not an array (a number, a string, a
  boolean, an object), which has no method \<open>find\<close>.
\<close>

datatype balances_value =
    NoBalances
  | BalancesArray "spot_entry list"
  | NotAnArray

datatype json_body =
    NotJson string
      \<comment> \<open>\<open>res.json()\<close> rejects\<close>
  | SpotState balances_value

datatype fetch_result =
    FetchFailed string
  | Response nat string json_body
      \<comment> \<open>status, status text, body\<close>

text \<open>
  The environment of a run: the command line, the two environment variables, the pure
  functions of the viem library that the scripts call, and the behaviour of the outside
  world. An answer of the outside world may depend on the whole history and on the clock;
  it comes with the time it took, so that the clock (\<open>Date.now()\<close>, in milliseconds) never
  runs backwards.
\<close>

record env =
  argv :: "string list"
  SRC_RPC_URL :: "string option"
  PRIVATE_KEY :: "string option"
  isAddress :: "string \<Rightarrow> bool"
  privateKeyToAccount :: "string \<Rightarrow> string + string"
  parseUnits :: "string \<Rightarrow> int \<Rightarrow> string + int"
  parseFloat :: "string \<Rightarrow> real option"
  readContractAnswer :: "world \<Rightarrow> string \<Rightarrow> string \<Rightarrow> string \<Rightarrow> string list \<Rightarrow> (string + int) \<times> nat"
  fetchAnswer :: "world \<Rightarrow> string \<Rightarrow> string \<Rightarrow> fetch_result \<times> nat"
  spawnAnswer :: "world \<Rightarrow> string \<Rightarrow> string list \<Rightarrow> child_outcome \<times> nat"
  timerLag :: "world \<Rightarrow> nat \<Rightarrow> nat"

text \<open>
  An asynchronous function of the source is a function of the world that returns its
  result, or the error it rejects with, and the world afterwards; \<open>None\<close> stands for a
  call that never returns.
\<close>

type_synonym 'a io = "world \<Rightarrow> ((error + 'a) \<times> world) option"

definition returnIO :: "'a \<Rightarrow> 'a io" where
  "returnIO x = (\<lambda>w. Some (Inr x, w))"

definition throwIO :: "error \<Rightarrow> 'a io" where
  "throwIO e = (\<lambda>w. Some (Inl e, w))"

definition bindIO :: "'a io \<Rightarrow> ('a \<Rightarrow> 'b io) \<Rightarrow> 'b io" where
  "bindIO m f =
     (\<lambda>w. case m w of
            None \<Rightarrow> None
          | Some (Inl e, w1) \<Rightarrow> Some (Inl e, w1)
          | Some (Inr x, w1) \<Rightarrow> f x w1)"

definition liftE :: "string + 'a \<Rightarrow> 'a io" where
  "liftE r = (case r of Inl msg \<Rightarrow> throwIO (LibraryError msg) | Inr x \<Rightarrow> returnIO x)"

definition fromEither :: "error + 'a \<Rightarrow> 'a io" where
  "fromEither r = (case r of Inl err \<Rightarrow> throwIO err | Inr x \<Rightarrow> returnIO x)"

definition record_event :: "event \<Rightarrow> nat \<Rightarrow> world \<Rightarrow> world" where
  "record_event ev duration w = w\<lparr>now := now w + int duration, trace := trace w @ [ev]\<rparr>"

section \<open>The helpers of the flow scripts\<close>

subsection \<open>runStep\<close>

text \<open>
  \<open>runStep\<close> spawns the step's script and settles on the child's \<open>error\<close> or \<open>exit\<close> event:
  a signal rejects, exit code 0 resolves, anything else rejects.
\<close>

definition settle_exit :: "string \<Rightarrow> int option \<Rightarrow> error + unit" where
  "settle_exit stepName code = (if code = Some 0 then Inr () else Inl (StepExit stepName code))"

definition settle :: "string \<Rightarrow> child_outcome \<Rightarrow> error + unit" where
  "settle stepName outcome =
     (case outcome of
        SpawnFailed msg \<Rightarrow> Inl (SpawnError msg)
      | ChildExit code signal \<Rightarrow>
          (case signal of
             None \<Rightarrow> settle_exit stepName code
           | Some sig \<Rightarrow>
               if sig \<noteq> [] then Inl (StepSignal stepName sig) else settle_exit stepName code))"

definition runStep :: "env \<Rightarrow> string \<Rightarrow> string \<Rightarrow> string list \<Rightarrow> unit io" where
  "runStep e stepName scriptRelPath args =
     (\<lambda>w. let (outcome, duration) = spawnAnswer e w scriptRelPath args
           in Some (settle stepName outcome,
                    record_event (Spawn stepName scriptRelPath args outcome) duration w))"

subsection \<open>sleep\<close>

text \<open>
  \<open>sleep(ms)\<close> is \<open>setTimeout(r, ms)\<close>. Node.js sets a delay below 1 or above 2147483647 to 1;
  the timer fires no earlier than the delay.
\<close>

definition timerDelay :: "nat \<Rightarrow> nat" where
  "timerDelay ms = (if ms < 1 \<or> 2147483647 < ms then 1 else ms)"

definition sleep :: "env \<Rightarrow> nat \<Rightarrow> world \<Rightarrow> world" where
  "sleep e ms w = record_event (Sleep ms) (timerDelay ms + timerLag e w ms) w"

subsection \<open>pollUntil\<close>

record poll_opts =
  timeoutMs :: "nat option"
  intervalMs :: "nat option"

text \<open>The \<open>while (true)\<close> loop of \<open>pollUntil\<close>.\<close>

partial_function (option) pollLoop ::
  "env \<Rightarrow> string \<Rightarrow> 'a io \<Rightarrow> ('a \<Rightarrow> bool) \<Rightarrow> nat \<Rightarrow> nat \<Rightarrow> int \<Rightarrow> world
     \<Rightarrow> ((error + 'a) \<times> world) option"
where
  "pollLoop e label read ok timeout interval started w =
     (case read w of
        None \<Rightarrow> None
      | Some (Inl err, w1) \<Rightarrow> Some (Inl err, w1)
      | Some (Inr v, w1) \<Rightarrow>
          if ok v then Some (Inr v, w1)
          else if now w1 - started > int timeout then
            Some (Inl (Timeout label), record_event (PollTimedOut label) 0 w1)
          else pollLoop e label read ok timeout interval started (sleep e interval w1))"

declare pollLoop.simps [code]

text \<open>\<open>opts?.timeoutMs ?? 10 * 60_000\<close> and \<open>opts?.intervalMs ?? 5_000\<close>\<close>

definition timeoutOf :: "poll_opts option \<Rightarrow> nat" where
  "timeoutOf po =
     (case po of
        None \<Rightarrow> 10 * 60000
      | Some v \<Rightarrow> (case timeoutMs v of None \<Rightarrow> 10 * 60000 | Some t \<Rightarrow> t))"

definition intervalOf :: "poll_opts option \<Rightarrow> nat" where
  "intervalOf po =
     (case po of
        None \<Rightarrow> 5000
      | Some v \<Rightarrow> (case intervalMs v of None \<Rightarrow> 5000 | Some t \<Rightarrow> t))"

definition pollUntil ::
  "env \<Rightarrow> string \<Rightarrow> 'a io \<Rightarrow> ('a \<Rightarrow> bool) \<Rightarrow> poll_opts option \<Rightarrow> 'a io"
where
  "pollUntil e label read ok po =
     (\<lambda>w. let timeout = timeoutOf po;
               interval = intervalOf po;
               started = now w
           in pollLoop e label read ok timeout interval started
                (record_event (PollStart label) 0 w))"

text \<open>
  The world at the head of the loop after \<open>k\<close> rounds in which the read returned a value
  that did not satisfy the predicate and the timeout had not passed.
\<close>

fun loop_head ::
  "env \<Rightarrow> 'a io \<Rightarrow> ('a \<Rightarrow> bool) \<Rightarrow> nat \<Rightarrow> nat \<Rightarrow> int \<Rightarrow> nat \<Rightarrow> world \<Rightarrow> world option"
where
  "loop_head e read ok timeout interval started 0 w = Some w"
| "loop_head e read ok timeout interval started (Suc k) w =
     (case read w of
        Some (Inr v, w1) \<Rightarrow>
          if \<not> ok v \<and> \<not> now w1 - started > int timeout
          then loop_head e read ok timeout interval started k (sleep e interval w1)
          else None
      | _ \<Rightarrow> None)"

subsection \<open>fetchHyperCoreSpotTotal\<close>

definition infoUrl :: string where
  "infoUrl = ''https://api.hyperliquid.xyz/info''"

text \<open>\<open>res.ok\<close>: the status is in the range 200 to 299.\<close>

definition res_ok :: "nat \<Rightarrow> bool" where
  "res_ok status = (200 \<le> status \<and> status \<le> 299)"

definition fetchHyperCoreSpotTotal :: "env \<Rightarrow> string \<Rightarrow> int \<Rightarrow> string option io" where
  "fetchHyperCoreSpotTotal e user tokenIndex =
     (\<lambda>w. let (res, duration) = fetchAnswer e w infoUrl user;
               w1 = record_event (Fetch infoUrl user) duration w
           in case res of
                FetchFailed msg \<Rightarrow> Some (Inl (FetchError msg), w1)
              | Response status statusText body \<Rightarrow>
                  if \<not> res_ok status then Some (Inl (HyperCoreApiError status statusText), w1)
                  else (case body of
                          NotJson msg \<Rightarrow> Some (Inl (FetchError msg), w1)
                        | SpotState data \<Rightarrow>
                            let balances = (case data of NoBalances \<Rightarrow> BalancesArray [] | v \<Rightarrow> v)
                            in case balances of
                                 BalancesArray bs \<Rightarrow>
                                   let bal = find (\<lambda>b. tokenNumber b = Some (toNumber tokenIndex)) bs
                                   in Some (Inr (case bal of None \<Rightarrow> None | Some b \<Rightarrow> total b), w1)
                               | _ \<Rightarrow>
                                   Some (Inl (TypeError ''balances.find is not a function''), w1)))"

subsection \<open>readContract\<close>

definition readContract :: "env \<Rightarrow> string \<Rightarrow> string \<Rightarrow> string \<Rightarrow> string list \<Rightarrow> int io" where
  "readContract e rpc address functionName args =
     (\<lambda>w. let (res, duration) = readContractAnswer e w rpc address functionName args;
               w1 = record_event (ReadContract rpc address functionName args) duration w
           in case res of
                Inl msg \<Rightarrow> Some (Inl (LibraryError msg), w1)
              | Inr v \<Rightarrow> Some (Inr v, w1))"

subsection \<open>Command line\<close>

fun findIndex :: "('a \<Rightarrow> bool) \<Rightarrow> 'a list \<Rightarrow> nat option" where
  "findIndex p [] = None"
| "findIndex p (x # xs) = (if p x then Some 0 else map_option Suc (findIndex p xs))"

definition at_index :: "'a list \<Rightarrow> nat \<Rightarrow> 'a option" where
  "at_index xs i = (if i < length xs then Some (xs ! i) else None)"

definition getArg :: "string list \<Rightarrow> string \<Rightarrow> string option" where
  "getArg args name =
     (case findIndex (\<lambda>a. a = name) args of
        None \<Rightarrow> None
      | Some idx \<Rightarrow> at_index args (idx + 1))"

definition hasFlag :: "string list \<Rightarrow> string \<Rightarrow> bool" where
  "hasFlag args flag = (flag \<in> set args)"

definition startsWithDash :: "string \<Rightarrow> bool" where
  "startsWithDash a = (case a of [] \<Rightarrow> False | c # _ \<Rightarrow> c = CHR ''-'')"

fun positionals :: "string list \<Rightarrow> string list" where
  "positionals [] = []"
| "positionals (a # rest) =
     (if a = [] then positionals rest
      else if startsWithDash a then
        (case rest of
           [] \<Rightarrow> []
         | next # rest' \<Rightarrow>
             if next \<noteq> [] \<and> \<not> startsWithDash next then positionals rest'
             else positionals rest)
      else a # positionals rest)"

definition getPositionalArg :: "string list \<Rightarrow> nat \<Rightarrow> string option" where
  "getPositionalArg args index = at_index (positionals (drop 2 args)) index"

text \<open>\<open>a ?? b\<close>, and the test \<open>!s\<close> on a string that may be \<open>undefined\<close> or \<open>null\<close>.\<close>

definition orElse :: "'a option \<Rightarrow> 'a option \<Rightarrow> 'a option" where
  "orElse a b = (case a of None \<Rightarrow> b | Some v \<Rightarrow> Some v)"

definition require :: "string option \<Rightarrow> error \<Rightarrow> error + string" where
  "require s err = (case s of None \<Rightarrow> Inl err | Some v \<Rightarrow> if v = [] then Inl err else Inr v)"

text \<open>A call into the viem library that may throw.\<close>

definition fromLibrary :: "string + 'a \<Rightarrow> error + 'a" where
  "fromLibrary r = (case r of Inl msg \<Rightarrow> Inl (LibraryError msg) | Inr v \<Rightarrow> Inr v)"

definition bindE :: "error + 'a \<Rightarrow> ('a \<Rightarrow> error + 'b) \<Rightarrow> error + 'b" where
  "bindE r f = (case r of Inl err \<Rightarrow> Inl err | Inr v \<Rightarrow> f v)"

subsection \<open>config/tokens.ts\<close>

record tokenConfig =
  token_name :: string
  bsc_wrapper :: string
  bsc_adapter :: string
  bsc_underlying :: "string option"
  hyperEvm_oft :: string
  hyperCore_tokenIndex :: int

definition TOKENS :: "(string \<times> tokenConfig) list" where
  "TOKENS =
     [(''crcld'',
       \<lparr>token_name = ''CRCLd'',
        bsc_wrapper = ''0x8edE6AffCBe962e642f83d84b8Af66313A700dDf'',
        bsc_adapter = ''0xF351FA44A73E6D1E9c4C2927A8D2b8c69a8B8897'',
        bsc_underlying = Some ''0x992879cd8ce0c312d98648875b5a8d6d042cbf34'',
        hyperEvm_oft = ''0xe74aA6C4050A15790525eB11cc4562c664dC67C9'',
        hyperCore_tokenIndex = 409\<rparr>)]"

text \<open>
  \<open>String.prototype.toLowerCase\<close> on the ASCII letters. Bytes beyond ASCII are left as they
  are: no character beyond ASCII is mapped to a letter of a key of the token table or to a
  hexadecimal digit.
\<close>

definition lowerChar :: "char \<Rightarrow> char" where
  "lowerChar c =
     (let code = (of_char c :: nat)
      in if 65 \<le> code \<and> code \<le> 90 then char_of (code + 32) else c)"

definition toLowerCase :: "string \<Rightarrow> string" where
  "toLowerCase s = map lowerChar s"

text \<open>
  \<open>String.prototype.trim\<close> removes white space and line terminators from both ends: the
  ASCII characters space, tab, line feed, vertical tab, form feed and carriage return, and
  the characters U+00A0, U+1680, U+2000 to U+200A, U+2028, U+2029, U+202F, U+205F, U+3000
  and U+FEFF, here as their UTF-8 bytes.
\<close>

definition whiteSpace :: "string list" where
  "whiteSpace =
     [[CHR '' ''], [CHR 0x09], [CHR 0x0A], [CHR 0x0B], [CHR 0x0C], [CHR 0x0D],
      [CHR 0xC2, CHR 0xA0],
      [CHR 0xE1, CHR 0x9A, CHR 0x80],
      [CHR 0xE2, CHR 0x80, CHR 0x80], [CHR 0xE2, CHR 0x80, CHR 0x81],
      [CHR 0xE2, CHR 0x80, CHR 0x82], [CHR 0xE2, CHR 0x80, CHR 0x83],
      [CHR 0xE2, CHR 0x80, CHR 0x84], [CHR 0xE2, CHR 0x80, CHR 0x85],
      [CHR 0xE2, CHR 0x80, CHR 0x86], [CHR 0xE2, CHR 0x80, CHR 0x87],
      [CHR 0xE2, CHR 0x80, CHR 0x88], [CHR 0xE2, CHR 0x80, CHR 0x89],
      [CHR 0xE2, CHR 0x80, CHR 0x8A],
      [CHR 0xE2, CHR 0x80, CHR 0xA8], [CHR 0xE2, CHR 0x80, CHR 0xA9],
      [CHR 0xE2, CHR 0x80, CHR 0xAF],
      [CHR 0xE2, CHR 0x81, CHR 0x9F],
      [CHR 0xE3, CHR 0x80, CHR 0x80],
      [CHR 0xEF, CHR 0xBB, CHR 0xBF]]"

text \<open>The number of bytes of the white-space character at the start of a string, if any.\<close>

definition leadingSpace :: "string \<Rightarrow> nat" where
  "leadingSpace s =
     (case find (\<lambda>ws. take (length ws) s = ws) whiteSpace of None \<Rightarrow> 0 | Some ws \<Rightarrow> length ws)"

fun dropSpaces :: "nat \<Rightarrow> string \<Rightarrow> string" where
  "dropSpaces 0 s = s"
| "dropSpaces (Suc k) s =
     (if leadingSpace s = 0 then s else dropSpaces k (drop (leadingSpace s) s))"

definition trimStart :: "string \<Rightarrow> string" where
  "trimStart s = dropSpaces (length s) s"

text \<open>The same from the end: the bytes of a character are matched in reverse.\<close>

definition trailingSpace :: "string \<Rightarrow> nat" where
  "trailingSpace s =
     (case find (\<lambda>ws. take (length ws) (rev s) = rev ws) whiteSpace of
        None \<Rightarrow> 0
      | Some ws \<Rightarrow> length ws)"

fun dropSpacesEnd :: "nat \<Rightarrow> string \<Rightarrow> string" where
  "dropSpacesEnd 0 s = s"
| "dropSpacesEnd (Suc k) s =
     (if trailingSpace s = 0 then s
      else dropSpacesEnd k (take (length s - trailingSpace s) s))"

definition trimEnd :: "string \<Rightarrow> string" where
  "trimEnd s = dropSpacesEnd (length s) s"

definition trim :: "string \<Rightarrow> string" where
  "trim s = trimEnd (trimStart s)"

definition normalizeTokenName :: "string \<Rightarrow> string" where
  "normalizeTokenName s = toLowerCase (trim s)"

text \<open>
  \<open>TOKENS[key]\<close> is a property read of an object literal: besides the table's own keys, the
  keys \<open>constructor\<close> and \<open>__proto__\<close> are found on \<open>Object.prototype\<close>, with a truthy value
  that has none of the fields of a token configuration.
\<close>

datatype token_meta = Config tokenConfig | PrototypeValue

definition lookupToken :: "string \<Rightarrow> token_meta option" where
  "lookupToken key =
     (case map_of TOKENS key of
        Some c \<Rightarrow> Some (Config c)
      | None \<Rightarrow> if key = ''constructor'' \<or> key = ''__proto__'' then Some PrototypeValue else None)"

definition requireToken :: "string option \<Rightarrow> error + token_meta" where
  "requireToken input =
     bindE (require input (UsageError ''Missing token name (e.g. CRCLd).'')) (\<lambda>input.
       case lookupToken (normalizeTokenName input) of
         None \<Rightarrow> Inl (UnknownToken input)
       | Some t \<Rightarrow> Inr t)"

text \<open>The first read of a field of \<open>tokenMeta\<close>.\<close>

definition configOf :: "token_meta \<Rightarrow> tokenConfig io" where
  "configOf t =
     (case t of
        Config c \<Rightarrow> returnIO c
      | PrototypeValue \<Rightarrow> throwIO (TypeError ''Cannot read properties of undefined''))"

subsection \<open>BigInt division and decimal numerals\<close>

text \<open>The quotient of two BigInts is truncated toward zero.\<close>

definition bigint_div :: "int \<Rightarrow> int \<Rightarrow> int" where
  "bigint_div a b = sgn a * sgn b * (\<bar>a\<bar> div \<bar>b\<bar>)"

fun toDecimal :: "nat \<Rightarrow> string" where
  "toDecimal n = (if n < 10 then [hexDigits ! n] else toDecimal (n div 10) @ [hexDigits ! (n mod 10)])"

declare toDecimal.simps [simp del]

definition numberToString :: "int \<Rightarrow> string" where
  "numberToString i = (if i < 0 then CHR ''-'' # toDecimal (nat (- i)) else toDecimal (nat i))"

subsection \<open>The confirmation predicates of the hops\<close>

text \<open>
  The predicates that the flow scripts pass to \<open>pollUntil\<close>:
  \<open>(bal) => bal > wrapperBalBefore\<close>, \<open>(bal) => bal >= expectedAtLeast\<close> with
  \<open>expectedAtLeast = before + amountWei\<close>, and \<open>(bal) => bal >= coreBalBefore + minExpected\<close>
  with \<open>minExpected = (coreAmountWei * 999n) / 1000n\<close>.
\<close>

definition confirm_increase :: "int \<Rightarrow> int \<Rightarrow> bool" where
  "confirm_increase before bal = (bal > before)"

definition confirm_at_least :: "int \<Rightarrow> int \<Rightarrow> int \<Rightarrow> bool" where
  "confirm_at_least before amountWei bal =
     (let expectedAtLeast = before + amountWei in bal \<ge> expectedAtLeast)"

definition confirm_tolerance :: "int \<Rightarrow> int \<Rightarrow> int \<Rightarrow> bool" where
  "confirm_tolerance coreBalBefore coreAmountWei bal =
     (let minExpected = bigint_div (coreAmountWei * 999) 1000
      in bal \<ge> coreBalBefore + minExpected)"

section \<open>The flow scripts\<close>

text \<open>
  Both scripts read their inputs, check them, and then run three hops: a snapshot of the
  destination balance, the step's script as a child process, and (unless \<open>--dry-run\<close> is
  given) a poll of the destination balance. Console output is not modelled: the progress
  lines printed by the read callbacks and the final report do not influence control flow.
\<close>

record common_inputs =
  token :: string
  to :: string
  dryRun :: "string list"
  isDryRun :: bool
  srcRpcUrl :: string
  account :: string
  tokenMeta :: token_meta

definition hyperEvmRpcUrl :: string where
  "hyperEvmRpcUrl = ''https://rpc.hyperliquid.xyz/evm''"

definition opts :: "nat \<Rightarrow> nat \<Rightarrow> poll_opts option" where
  "opts t i = Some \<lparr>timeoutMs = Some t, intervalMs = Some i\<rparr>"

text \<open>\<open>s ? parseUnits(s, tokenDecimals) : 0n\<close>\<close>

definition spotTotalWei :: "env \<Rightarrow> int \<Rightarrow> string option \<Rightarrow> int io" where
  "spotTotalWei e tokenDecimals s =
     (case s of
        None \<Rightarrow> returnIO 0
      | Some str \<Rightarrow> if str = [] then returnIO 0 else liftE (parseUnits e str tokenDecimals))"

text \<open>\<open>coreBalBeforeStr ? parseFloat(coreBalBeforeStr) : 0\<close>; \<open>None\<close> is \<open>NaN\<close>.\<close>

definition spotTotalNumber :: "env \<Rightarrow> string option \<Rightarrow> real option" where
  "spotTotalNumber e s =
     (case s of
        None \<Rightarrow> Some 0
      | Some str \<Rightarrow> if str = [] then Some 0 else parseFloat e str)"

subsection \<open>src/flowHypeCoreToBsc.ts\<close>

record core_to_bsc_inputs = common_inputs +
  spotSendAmount :: string
  bridgeAmount :: string
  unwrapAmount :: string

text \<open>Lines 118 to 154 of \<open>main\<close>: everything before the clients are created.\<close>

definition inputs_flowHypeCoreToBsc :: "env \<Rightarrow> error + core_to_bsc_inputs" where
  "inputs_flowHypeCoreToBsc e =
     bindE (require (orElse (getArg (argv e) ''--token'') (getPositionalArg (argv e) 0))
              (UsageError ''Missing token. Usage: npm run flowHypeCoreToBsc -- <TOKEN> --to <ADDR> --amount <AMOUNT>''))
       (\<lambda>token_v.
     bindE (bindE (require (getArg (argv e) ''--to'')
                     (UsageError ''Missing/invalid --to (recipient on BSC for final unwrapped tokens)''))
              (\<lambda>to_v. if isAddress e to_v then Inr to_v
                 else Inl (UsageError ''Missing/invalid --to (recipient on BSC for final unwrapped tokens)'')))
       (\<lambda>to_v.
     let amount = getArg (argv e) ''--amount'' in
     bindE (require (orElse (getArg (argv e) ''--spot-send-amount'') amount)
              (UsageError ''Missing --amount (or --spot-send-amount)''))
       (\<lambda>spotSendAmount_v.
     bindE (require (orElse (getArg (argv e) ''--bridge-amount'') amount)
              (UsageError ''Missing --amount (or --bridge-amount)''))
       (\<lambda>bridgeAmount_v.
     bindE (require (orElse (getArg (argv e) ''--unwrap-amount'') amount)
              (UsageError ''Missing --amount (or --unwrap-amount)''))
       (\<lambda>unwrapAmount_v.
     bindE (require (SRC_RPC_URL e) (UsageError ''Missing SRC_RPC_URL''))
       (\<lambda>srcRpcUrl_v.
     bindE (require (PRIVATE_KEY e) (UsageError ''Missing PRIVATE_KEY''))
       (\<lambda>privateKey.
     bindE (fromLibrary (privateKeyToAccount e privateKey))
       (\<lambda>address.
     bindE (requireToken (Some token_v))
       (\<lambda>tokenMeta_v.
     if toLowerCase to_v \<noteq> toLowerCase address then Inl (ToSignerMismatch to_v address)
     else Inr \<lparr>token = token_v, to = to_v,
                dryRun = (if hasFlag (argv e) ''--dry-run'' then [''--dry-run''] else []),
                isDryRun = hasFlag (argv e) ''--dry-run'',
                srcRpcUrl = srcRpcUrl_v, account = address, tokenMeta = tokenMeta_v,
                spotSendAmount = spotSendAmount_v, bridgeAmount = bridgeAmount_v,
                unwrapAmount = unwrapAmount_v\<rparr>)))))))))"

text \<open>Step 1: HyperCore to HyperEVM (\<open>spotSend\<close>).\<close>

definition coreToBsc_step1 :: "env \<Rightarrow> core_to_bsc_inputs \<Rightarrow> tokenConfig \<Rightarrow> int \<Rightarrow> unit io" where
  "coreToBsc_step1 e i cfg tokenDecimals =
     bindIO (fetchHyperCoreSpotTotal e (account i) (hyperCore_tokenIndex cfg)) (\<lambda>coreBalBeforeStr.
     let coreBalBefore = spotTotalNumber e coreBalBeforeStr in
     bindIO (readContract e hyperEvmRpcUrl (hyperEvm_oft cfg) ''balanceOf'' [account i])
       (\<lambda>hyperEvmBalBefore.
     bindIO (runStep e ''hypeCoreToHypeEvm'' ''src/hypeCoreToHypeEvm.ts''
               ([token i, ''--amount'', spotSendAmount i] @ dryRun i)) (\<lambda>_.
     if \<not> isDryRun i then
       bindIO (liftE (parseUnits e (spotSendAmount i) tokenDecimals)) (\<lambda>spotSendAmountWei.
       bindIO (pollUntil e ''HyperEVM token balance credited from HyperCore''
                 (readContract e hyperEvmRpcUrl (hyperEvm_oft cfg) ''balanceOf'' [account i])
                 (confirm_at_least hyperEvmBalBefore spotSendAmountWei)
                 (opts (5 * 60000) 2000)) (\<lambda>_.
       returnIO ()))
     else returnIO ())))"

text \<open>Step 2: HyperEVM to BSC (LayerZero).\<close>

definition coreToBsc_step2 :: "env \<Rightarrow> core_to_bsc_inputs \<Rightarrow> tokenConfig \<Rightarrow> int \<Rightarrow> unit io" where
  "coreToBsc_step2 e i cfg tokenDecimals =
     bindIO (readContract e (srcRpcUrl i) (bsc_wrapper cfg) ''balanceOf'' [account i])
       (\<lambda>bscWrapperBalBefore.
     bindIO (runStep e ''hypeEvmToBsc'' ''src/hypeEvmToBsc.ts''
               ([token i, ''--to'', to i, ''--amount'', bridgeAmount i] @ dryRun i)) (\<lambda>_.
     if \<not> isDryRun i then
       bindIO (liftE (parseUnits e (bridgeAmount i) tokenDecimals)) (\<lambda>bridgeAmountWei.
       bindIO (pollUntil e ''BSC wrapper balance credited from HyperEVM''
                 (readContract e (srcRpcUrl i) (bsc_wrapper cfg) ''balanceOf'' [account i])
                 (confirm_at_least bscWrapperBalBefore bridgeAmountWei)
                 (opts (30 * 60000) 5000)) (\<lambda>_.
       returnIO ()))
     else returnIO ()))"

text \<open>Step 3: unwrap on BSC.\<close>

definition coreToBsc_step3 :: "env \<Rightarrow> core_to_bsc_inputs \<Rightarrow> tokenConfig \<Rightarrow> unit io" where
  "coreToBsc_step3 e i cfg =
     bindIO (fromEither (require (bsc_underlying cfg) (MissingUnderlying (token_name cfg))))
       (\<lambda>underlying.
     bindIO (readContract e (srcRpcUrl i) underlying ''balanceOf'' [account i])
       (\<lambda>underlyingBalBefore.
     bindIO (runStep e ''bscUnwrap'' ''src/bscUnwrap.ts''
               ([token i, ''--to'', to i, ''--amount'', unwrapAmount i] @ dryRun i)) (\<lambda>_.
     if \<not> isDryRun i then
       bindIO (readContract e (srcRpcUrl i) underlying ''balanceOf'' [account i])
         (\<lambda>underlyingBalAfter.
       let delta = underlyingBalAfter - underlyingBalBefore in
       returnIO ())
     else returnIO ())))"

definition main_flowHypeCoreToBsc :: "env \<Rightarrow> unit io" where
  "main_flowHypeCoreToBsc e =
     bindIO (fromEither (inputs_flowHypeCoreToBsc e)) (\<lambda>i.
     bindIO (configOf (tokenMeta i)) (\<lambda>cfg.
     bindIO (readContract e hyperEvmRpcUrl (hyperEvm_oft cfg) ''decimals'' []) (\<lambda>tokenDecimals.
     bindIO (coreToBsc_step1 e i cfg tokenDecimals) (\<lambda>_.
     bindIO (coreToBsc_step2 e i cfg tokenDecimals) (\<lambda>_.
     coreToBsc_step3 e i cfg)))))"

subsection \<open>The flow from BSC to HyperCore (\<open>npm run flow\<close>)\<close>

record bsc_to_core_inputs = common_inputs +
  wrapAmount :: string
  sendAmount :: string
  coreAmount :: string

text \<open>The part of \<open>main\<close> before the first client is created.\<close>

definition inputs_flow :: "env \<Rightarrow> error + bsc_to_core_inputs" where
  "inputs_flow e =
     bindE (require (orElse (getArg (argv e) ''--token'') (getPositionalArg (argv e) 0))
              (UsageError ''Missing token. Usage: npm run flow -- <TOKEN> --to <ADDR> --amount <AMOUNT>''))
       (\<lambda>token_v.
     bindE (bindE (require (getArg (argv e) ''--to'')
                     (UsageError ''Missing/invalid --to (recipient on destination chain for sendToHyperEvm)''))
              (\<lambda>to_v. if isAddress e to_v then Inr to_v
                 else Inl (UsageError ''Missing/invalid --to (recipient on destination chain for sendToHyperEvm)'')))
       (\<lambda>to_v.
     let amount = getArg (argv e) ''--amount'' in
     bindE (require (orElse (getArg (argv e) ''--wrap-amount'') amount)
              (UsageError ''Missing --amount (or --wrap-amount)''))
       (\<lambda>wrapAmount_v.
     bindE (require (orElse (getArg (argv e) ''--send-amount'') amount)
              (UsageError ''Missing --amount (or --send-amount)''))
       (\<lambda>sendAmount_v.
     bindE (require (orElse (getArg (argv e) ''--core-amount'') amount)
              (UsageError ''Missing --amount (or --core-amount)''))
       (\<lambda>coreAmount_v.
     bindE (require (SRC_RPC_URL e) (UsageError ''Missing SRC_RPC_URL''))
       (\<lambda>srcRpcUrl_v.
     bindE (require (PRIVATE_KEY e) (UsageError ''Missing PRIVATE_KEY''))
       (\<lambda>privateKey.
     bindE (fromLibrary (privateKeyToAccount e privateKey))
       (\<lambda>address.
     bindE (requireToken (Some token_v))
       (\<lambda>tokenMeta_v.
     if toLowerCase to_v \<noteq> toLowerCase address then Inl (ToSignerMismatch to_v address)
     else Inr \<lparr>token = token_v, to = to_v,
                dryRun = (if hasFlag (argv e) ''--dry-run'' then [''--dry-run''] else []),
                isDryRun = hasFlag (argv e) ''--dry-run'',
                srcRpcUrl = srcRpcUrl_v, account = address, tokenMeta = tokenMeta_v,
                wrapAmount = wrapAmount_v, sendAmount = sendAmount_v,
                coreAmount = coreAmount_v\<rparr>)))))))))"

text \<open>Step 1: wrap on BSC.\<close>

definition flow_step1 :: "env \<Rightarrow> bsc_to_core_inputs \<Rightarrow> tokenConfig \<Rightarrow> unit io" where
  "flow_step1 e i cfg =
     bindIO (readContract e (srcRpcUrl i) (bsc_wrapper cfg) ''balanceOf'' [account i])
       (\<lambda>wrapperBalBefore.
     bindIO (runStep e ''bscWrap'' ''src/bscWrap.ts''
               ([token i, ''--amount'', wrapAmount i] @ dryRun i)) (\<lambda>_.
     if \<not> isDryRun i then
       bindIO (pollUntil e ''wrapper balance increase after wrap''
                 (readContract e (srcRpcUrl i) (bsc_wrapper cfg) ''balanceOf'' [account i])
                 (confirm_increase wrapperBalBefore)
                 (opts (2 * 60000) 3000)) (\<lambda>_.
       returnIO ())
     else returnIO ()))"

text \<open>Step 2: send to HyperEVM (LayerZero). It returns the token's decimals for step 3.\<close>

definition flow_step2 :: "env \<Rightarrow> bsc_to_core_inputs \<Rightarrow> tokenConfig \<Rightarrow> int io" where
  "flow_step2 e i cfg =
     bindIO (readContract e hyperEvmRpcUrl (hyperEvm_oft cfg) ''decimals'' []) (\<lambda>tokenDecimals.
     bindIO (liftE (parseUnits e (sendAmount i) tokenDecimals)) (\<lambda>sendAmountWei.
     bindIO (readContract e hyperEvmRpcUrl (hyperEvm_oft cfg) ''balanceOf'' [to i])
       (\<lambda>hyperBalBefore.
     bindIO (runStep e ''bscToHypeEvm'' ''src/bscToHypeEvm.ts''
               ([token i, ''--to'', to i, ''--amount'', sendAmount i] @ dryRun i)) (\<lambda>_.
     if \<not> isDryRun i then
       bindIO (pollUntil e ''HyperEVM token balance credited''
                 (readContract e hyperEvmRpcUrl (hyperEvm_oft cfg) ''balanceOf'' [to i])
                 (confirm_at_least hyperBalBefore sendAmountWei)
                 (opts (24 * 60 * 60000) 1000)) (\<lambda>_.
       returnIO tokenDecimals)
     else returnIO tokenDecimals))))"

text \<open>Step 3: send the token from HyperEVM to HyperCore.\<close>

definition flow_step3 :: "env \<Rightarrow> bsc_to_core_inputs \<Rightarrow> tokenConfig \<Rightarrow> int \<Rightarrow> unit io" where
  "flow_step3 e i cfg tokenDecimals =
     (let tokenIndex = hyperCore_tokenIndex cfg;
          coreBridge = toAssetBridgeAddress tokenIndex in
     bindIO (liftE (parseUnits e (coreAmount i) tokenDecimals)) (\<lambda>coreAmountWei.
     bindIO (fetchHyperCoreSpotTotal e (account i) tokenIndex) (\<lambda>coreBalBeforeStr.
     bindIO (spotTotalWei e tokenDecimals coreBalBeforeStr) (\<lambda>coreBalBefore.
     bindIO (runStep e ''hypeEvmToHypeCore'' ''src/hypeEvmToHypeCore.ts''
               ([token i, ''--amount'', coreAmount i] @ dryRun i)) (\<lambda>_.
     if \<not> isDryRun i then
       bindIO (pollUntil e (''HyperCore spot credit for tokenIndex='' @ numberToString tokenIndex)
                 (bindIO (fetchHyperCoreSpotTotal e (account i) tokenIndex)
                    (spotTotalWei e tokenDecimals))
                 (confirm_tolerance coreBalBefore coreAmountWei)
                 (opts (10 * 60000) 5000)) (\<lambda>_.
       returnIO ())
     else returnIO ())))))"

definition main_flow :: "env \<Rightarrow> unit io" where
  "main_flow e =
     bindIO (fromEither (inputs_flow e)) (\<lambda>i.
     bindIO (configOf (tokenMeta i)) (\<lambda>cfg.
     bindIO (flow_step1 e i cfg) (\<lambda>_.
     bindIO (flow_step2 e i cfg) (\<lambda>tokenDecimals.
     flow_step3 e i cfg tokenDecimals))))"

section \<open>Environments for concrete runs\<close>

text \<open>
  An environment in which nothing is configured, every call answers at once with an empty
  or zero answer, every child exits with code 0 and timers fire on time.
\<close>

definition quiet_env :: env where
  "quiet_env =
     \<lparr>argv = [], SRC_RPC_URL = None, PRIVATE_KEY = None,
      isAddress = (\<lambda>a. False),
      privateKeyToAccount = (\<lambda>k. Inl ''invalid private key''),
      parseUnits = (\<lambda>s d. Inl ''invalid decimal number''),
      parseFloat = (\<lambda>s. None),
      readContractAnswer = (\<lambda>w rpc a f args. (Inr 0, 0)),
      fetchAnswer = (\<lambda>w url user. (Response 200 ''OK'' (SpotState (BalancesArray [])), 0)),
      spawnAnswer = (\<lambda>w script args. (ChildExit (Some 0) None, 0)),
      timerLag = (\<lambda>w ms. 0)\<rparr>"

text \<open>A ledger whose balance is a function of the clock; a read takes \<open>d\<close> milliseconds.\<close>

definition balance_env :: "env \<Rightarrow> (int \<Rightarrow> int) \<Rightarrow> nat \<Rightarrow> env" where
  "balance_env e f d = e\<lparr>readContractAnswer := (\<lambda>w rpc a fn args. (Inr (f (now w)), d))\<rparr>"

text \<open>
  The balance that takes the values of \<open>xs\<close> at successive poll intervals and keeps the
  last one afterwards.
\<close>

definition sampled :: "int list \<Rightarrow> nat \<Rightarrow> int \<Rightarrow> int" where
  "sampled xs interval t = xs ! min (nat (t div int interval)) (length xs - 1)"

definition start :: world where
  "start = \<lparr>now = 0, trace = []\<rparr>"

text \<open>A ledger whose reads fail from time \<open>t0\<close> on and show a zero balance before.\<close>

definition flaky_env :: "env \<Rightarrow> int \<Rightarrow> env" where
  "flaky_env e t0 =
     e\<lparr>readContractAnswer :=
         (\<lambda>w rpc a fn args. if t0 \<le> now w then (Inl ''HTTP request failed'', 0) else (Inr 0, 0))\<rparr>"






text \<open>A ledger whose balance never changes.\<close>

definition constant_balance :: "int \<Rightarrow> int \<Rightarrow> int" where
  "constant_balance b t = b"

text \<open>A balance that follows \<open>f\<close> but never rises above \<open>cap\<close>.\<close>

definition capped :: "(int \<Rightarrow> int) \<Rightarrow> int \<Rightarrow> int \<Rightarrow> int" where
  "capped f cap t = min (f t) cap"

text \<open>
  A complete command line and environment for the token CRCLd, with \<open>--to\<close> equal to the
  signer's address up to case; amounts parse to 500 smallest units; and the same with
  every child exiting with code 1.
\<close>

definition demo_env :: env where
  "demo_env =
     quiet_env\<lparr>argv := [''node'', ''flow.ts'', ''CRCLd'', ''--to'', ''0xABCD'', ''--amount'', ''0.5''],
                SRC_RPC_URL := Some ''https://bsc.example'',
                PRIVATE_KEY := Some ''0x01'',
                isAddress := (\<lambda>a. True),
                privateKeyToAccount := (\<lambda>k. Inr ''0xabcd''),
                parseUnits := (\<lambda>s d. Inr 500)\<rparr>"

definition failing_env :: env where
  "failing_env = demo_env\<lparr>spawnAnswer := (\<lambda>w script args. (ChildExit (Some 1) None, 0))\<rparr>"

text \<open>The same command line with a private key whose address differs from \<open>--to\<close>.\<close>

definition mismatch_env :: env where
  "mismatch_env = demo_env\<lparr>privateKeyToAccount := (\<lambda>k. Inr ''0x9999'')\<rparr>"


section \<open>The vocabulary of the properties\<close>

text \<open>
  An asynchronous function is steady when it always settles and the clock does not run
  backwards while it runs. A poll of a steady read always settles.
\<close>

definition steady :: "'a io \<Rightarrow> bool" where
  "steady m = (\<forall>w. \<exists>r w'. m w = Some (r, w') \<and> now w \<le> now w')"

text \<open>
  A hop has failed when its child process did not exit with code 0 (it could not be
  spawned, was killed by a signal, or exited with another code) or when its poll timed
  out. \<open>rejection\<close> is what the failing call rejects with.
\<close>

definition executor_failed :: "child_outcome \<Rightarrow> bool" where
  "executor_failed outcome =
     (case outcome of
        SpawnFailed msg \<Rightarrow> True
      | ChildExit code signal \<Rightarrow> (signal \<noteq> None \<and> signal \<noteq> Some []) \<or> code \<noteq> Some 0)"

fun hop_failed :: "event \<Rightarrow> bool" where
  "hop_failed (Spawn stepName script args outcome) = executor_failed outcome"
| "hop_failed (PollTimedOut label) = True"
| "hop_failed ev = False"

fun rejection :: "event \<Rightarrow> error + unit" where
  "rejection (Spawn stepName script args outcome) = settle stepName outcome"
| "rejection (PollTimedOut label) = Inl (Timeout label)"
| "rejection ev = Inr ()"

text \<open>
  \<open>behaves m P\<close>: from every world, \<open>m\<close> settles, the clock has not run backwards, and the
  result and the events that \<open>m\<close> added to the history satisfy \<open>P\<close>.
\<close>

definition behaves :: "'a io \<Rightarrow> (error + 'a \<Rightarrow> event list \<Rightarrow> bool) \<Rightarrow> bool" where
  "behaves m P =
     (\<forall>w. \<exists>r w' evs. m w = Some (r, w') \<and> now w \<le> now w' \<and> trace w' = trace w @ evs \<and> P r evs)"

definition quiet :: "event list \<Rightarrow> bool" where
  "quiet evs = (\<forall>ev \<in> set evs. \<not> hop_failed ev)"

definition fail_last :: "error + 'a \<Rightarrow> event list \<Rightarrow> bool" where
  "fail_last r evs =
     (quiet evs
      \<or> (\<exists>pre ev err. evs = pre @ [ev] \<and> quiet pre \<and> hop_failed ev
            \<and> rejection ev = Inl err \<and> r = Inl err))"

text \<open>
  A poll adds its call marker, then events of its reads and timers, and ends with the
  timeout marker exactly when it rejects with the timeout error of its own loop.
\<close>

definition poll_events :: "string \<Rightarrow> (event \<Rightarrow> bool) \<Rightarrow> error + 'a \<Rightarrow> event list \<Rightarrow> bool" where
  "poll_events label p r evs =
     (\<exists>body. (\<forall>ev \<in> set body. p ev \<or> (\<exists>ms. ev = Sleep ms))
        \<and> (evs = PollStart label # body
            \<or> evs = PollStart label # body @ [PollTimedOut label] \<and> r = Inl (Timeout label)))"

definition input_error :: "error \<Rightarrow> bool" where
  "input_error err =
     (case err of UsageError m \<Rightarrow> True | UnknownToken t \<Rightarrow> True | ToSignerMismatch a b \<Rightarrow> True
      | _ \<Rightarrow> False)"

text \<open>
  The steps that a run has spawned, in order: step name, script and arguments. In a dry
  run the only events allowed are reads and children that were given \<open>--dry-run\<close> as their
  last argument: no poll is called, no timer is set.
\<close>

fun spawned :: "event list \<Rightarrow> (string \<times> string \<times> string list) list" where
  "spawned [] = []"
| "spawned (Spawn stepName script args outcome # evs) = (stepName, script, args) # spawned evs"
| "spawned (ev # evs) = spawned evs"



definition only :: "(event \<Rightarrow> bool) \<Rightarrow> error + 'a \<Rightarrow> event list \<Rightarrow> bool" where
  "only p r evs = (\<forall>ev \<in> set evs. p ev)"







section \<open>Properties of the asset-bridge address\<close>

lemma digitValue_table: "\<forall>d \<in> set [0..<16]. digitValue (hexDigits ! d) = d"
  by code_simp

lemma digitValue_hexDigit: "d < 16 \<Longrightarrow> digitValue (hexDigits ! d) = d"
  using digitValue_table by simp

lemma hexDigit_in_alphabet: "d < 16 \<Longrightarrow> hexDigits ! d \<in> set hexDigits"
  by (rule nth_mem) (simp add: hexDigits_def)

lemma hexValue_snoc: "hexValue (s @ [c]) = 16 * hexValue s + digitValue c"
  by (simp add: hexValue_def)

lemma hexValue_toHex: "hexValue (toHex n) = n"
proof (induction n rule: toHex.induct)
  case (1 n)
  show ?case
  proof (cases "n < 16")
    case True
    then show ?thesis
      by (subst toHex.simps) (simp add: hexValue_def digitValue_hexDigit)
  next
    case False
    then have "hexValue (toHex (n div 16)) = n div 16"
      using "1.IH" by simp
    with False show ?thesis
      by (subst toHex.simps) (simp add: hexValue_snoc digitValue_hexDigit)
  qed
qed

lemma set_toHex: "set (toHex n) \<subseteq> set hexDigits"
proof (induction n rule: toHex.induct)
  case (1 n)
  show ?case
  proof (cases "n < 16")
    case True
    then show ?thesis
      by (subst toHex.simps) (simp add: hexDigit_in_alphabet)
  next
    case False
    then have "set (toHex (n div 16)) \<subseteq> set hexDigits"
      using "1.IH" by simp
    moreover have "hexDigits ! (n mod 16) \<in> set hexDigits"
      by (rule hexDigit_in_alphabet) simp
    ultimately show ?thesis
      using False by (subst toHex.simps) simp
  qed
qed

lemma length_toHex: "0 < k \<Longrightarrow> n < 16 ^ k \<Longrightarrow> length (toHex n) \<le> k"
proof (induction k arbitrary: n)
  case 0
  then show ?case by simp
next
  case (Suc k)
  show ?case
  proof (cases "n < 16")
    case True
    then show ?thesis
      by (subst toHex.simps) simp
  next
    case False
    with Suc.prems have k: "0 < k"
      by (cases k) auto
    from Suc.prems have "n div 16 < 16 ^ k"
      by (simp add: less_mult_imp_div_less mult.commute)
    with k have "length (toHex (n div 16)) \<le> k"
      by (rule Suc.IH)
    with False show ?thesis
      by (subst toHex.simps) simp
  qed
qed

lemma digitValue_zero: "digitValue CHR ''0'' = 0"
  by (simp add: digitValue_def hexDigits_def)

lemma hexValue_zeros: "hexValue (replicate k CHR ''0'' @ s) = hexValue s"
proof -
  have z: "foldl (\<lambda>acc c. 16 * acc + digitValue c) 0 (replicate k CHR ''0'') = 0"
    by (induction k) (simp_all add: digitValue_zero)
  show ?thesis
    by (simp add: hexValue_def z)
qed

lemma padStart_zero:
  "padStart n ''0'' s = replicate (n - length s) CHR ''0'' @ s"
proof -
  have "concat (replicate m ''0'') = replicate m CHR ''0''" for m
    by (induction m) simp_all
  then show ?thesis
    by (simp add: padStart_def)
qed

lemma bitLength_le: "n < 2 ^ k \<Longrightarrow> bitLength n \<le> k"
proof (induction k arbitrary: n)
  case 0
  then show ?case by (subst bitLength.simps) simp
next
  case (Suc k)
  show ?case
  proof (cases "n = 0")
    case True
    then show ?thesis by (subst bitLength.simps) simp
  next
    case False
    from Suc.prems have "n div 2 < 2 ^ k"
      by (simp add: less_mult_imp_div_less mult.commute)
    then have "bitLength (n div 2) \<le> k"
      by (rule Suc.IH)
    with False show ?thesis
      by (subst bitLength.simps) simp
  qed
qed

lemma toNumber_safe: "\<bar>i\<bar> < 2 ^ 53 \<Longrightarrow> toNumber i = i"
proof -
  assume "\<bar>i\<bar> < 2 ^ 53"
  then have "nat \<bar>i\<bar> < 2 ^ 53"
    by (simp add: nat_less_iff)
  then have "bitLength (nat \<bar>i\<bar>) \<le> 53"
    by (rule bitLength_le)
  then show ?thesis
    by (simp add: toNumber_def Let_def)
qed

lemma numberToString16_safe:
  "0 \<le> i \<Longrightarrow> i < 2 ^ 53 \<Longrightarrow> numberToString16 (toNumber i) = toHex (nat i)"
  by (simp add: toNumber_safe numberToString16_def nat_less_iff integerDigits16.simps [of "nat i"])

lemma toAssetBridgeAddress_unfold:
  "toAssetBridgeAddress i =
     ''0x2'' @ replicate (39 - length (numberToString16 (toNumber i))) CHR ''0''
       @ numberToString16 (toNumber i)"
  by (simp add: toAssetBridgeAddress_def padStart_zero Let_def)

lemma bridge_digits:
  assumes "0 \<le> i" and "i < 2 ^ 53"
  shows "length (toHex (nat i)) \<le> 14"
    and "toAssetBridgeAddress i = ''0x2'' @ replicate (39 - length (toHex (nat i))) CHR ''0'' @ toHex (nat i)"
    and "int (hexValue (drop 3 (toAssetBridgeAddress i))) = i"
proof -
  from assms have "nat i < 2 ^ 53"
    by (simp add: nat_less_iff)
  then have n: "nat i < 16 ^ 14"
    by simp
  show "length (toHex (nat i)) \<le> 14"
    by (rule length_toHex [OF _ n]) simp
  show a: "toAssetBridgeAddress i
      = ''0x2'' @ replicate (39 - length (toHex (nat i))) CHR ''0'' @ toHex (nat i)"
    using assms by (simp add: toAssetBridgeAddress_unfold numberToString16_safe)
  then have "hexValue (drop 3 (toAssetBridgeAddress i)) = nat i"
    by (simp add: hexValue_zeros hexValue_toHex)
  with assms show "int (hexValue (drop 3 (toAssetBridgeAddress i))) = i"
    by simp
qed

text \<open>
  Claim C10. For a token index that is a non-negative safe integer (below \<open>2 ^ 53\<close>, where a
  JavaScript number holds every integer exactly), the bridge address is the 42-character
  string made of \<open>0x2\<close> and 39 lowercase hexadecimal digits: the numeral of the index, which
  has at most 14 digits, left-padded with zeros, so that the digits read back as the
  index. The function is therefore injective on the safe integers. It is not so on all
  indexes below \<open>16 ^ 39\<close>: an index above \<open>2 ^ 53\<close> is rounded to a double before it is
  printed, so that \<open>2 ^ 53 + 1\<close> has the address of \<open>2 ^ 53\<close>, and \<open>16 ^ 39 - 1\<close> is rounded to
  \<open>16 ^ 39\<close>, whose numeral has 40 digits and whose address has 43 characters.
\<close>

theorem toAssetBridgeAddress_format:
  assumes "0 \<le> tokenIndex" and "tokenIndex < 2 ^ 53"
  shows "\<exists>ds. toAssetBridgeAddress tokenIndex = ''0x2'' @ ds
           \<and> length ds = 39
           \<and> set ds \<subseteq> set ''0123456789abcdef''
           \<and> int (hexValue ds) = tokenIndex
           \<and> ds = replicate (39 - length (toHex (nat tokenIndex))) CHR ''0''
                  @ toHex (nat tokenIndex)
           \<and> length (toHex (nat tokenIndex)) \<le> 14
           \<and> length (toAssetBridgeAddress tokenIndex) = 42
           \<and> (\<forall>other. 0 \<le> other \<and> other < 2 ^ 53
                 \<and> toAssetBridgeAddress other = toAssetBridgeAddress tokenIndex
                 \<longrightarrow> other = tokenIndex)"
proof -
  define ds where
    "ds = replicate (39 - length (toHex (nat tokenIndex))) CHR ''0'' @ toHex (nat tokenIndex)"
  have addr: "toAssetBridgeAddress tokenIndex = ''0x2'' @ ds"
    using bridge_digits(2) [OF assms] by (simp add: ds_def)
  have len: "length (toHex (nat tokenIndex)) \<le> 14"
    using assms by (rule bridge_digits)
  then have l39: "length ds = 39"
    by (simp add: ds_def)
  have "set (toHex (nat tokenIndex)) \<subseteq> set hexDigits"
    by (rule set_toHex)
  then have alpha: "set ds \<subseteq> set ''0123456789abcdef''"
    by (auto simp: ds_def hexDigits_def)
  have "int (hexValue (drop 3 (toAssetBridgeAddress tokenIndex))) = tokenIndex"
    using assms by (rule bridge_digits)
  then have val: "int (hexValue ds) = tokenIndex"
    by (simp add: addr)
  have inj: "other = tokenIndex"
    if "0 \<le> other \<and> other < 2 ^ 53
        \<and> toAssetBridgeAddress other = toAssetBridgeAddress tokenIndex" for other
  proof -
    from that have "int (hexValue (drop 3 (toAssetBridgeAddress other))) = other"
      by (intro bridge_digits) simp_all
    with that val addr show ?thesis
      by simp
  qed
  from addr l39 alpha val inj len show ?thesis
    by (intro exI [of _ ds]) (simp add: ds_def)
qed

theorem toAssetBridgeAddress_format_witness:
  "toAssetBridgeAddress 409 = ''0x2000000000000000000000000000000000000199''
     \<and> (\<exists>ds. toAssetBridgeAddress 409 = ''0x2'' @ ds \<and> int (hexValue ds) = 409)"
proof -
  have a: "(0::int) \<le> 409" and b: "(409::int) < 2 ^ 53"
    by simp_all
  have h: "toHex 409 = ''199''"
    by (simp add: toHex.simps hexDigits_def)
  have r: "replicate 36 CHR ''0'' = ''000000000000000000000000000000000000''"
    by code_simp
  from toAssetBridgeAddress_format [OF a b] show ?thesis
    by (auto simp: h r)
qed

lemma bitLength_numeral:
  "bitLength 0 = 0"
  "bitLength (Suc 0) = Suc 0"
  "bitLength (numeral k) = Suc (bitLength (numeral k div 2))"
  by (subst bitLength.simps, simp)+

lemma toNumber_above_safe: "toNumber (2 ^ 53 + 1) = 2 ^ 53"
  by (simp add: toNumber_def Let_def bitLength_numeral)

lemma toNumber_two_53: "toNumber (2 ^ 53) = 2 ^ 53"
  by (simp add: toNumber_def Let_def bitLength_numeral)

lemma toNumber_39_digits: "toNumber (16 ^ 39 - 1) = 16 ^ 39"
  by (simp add: toNumber_def Let_def bitLength_numeral)

lemma numberToString16_two_53: "numberToString16 (2 ^ 53) = ''20000000000000''"
  by (simp add: numberToString16_def integerDigits16.simps toHex.simps hexDigits_def)

lemma numberToString16_16_39: "numberToString16 (16 ^ 39) = ''1000000000000000000000000000000000000000''"
  by (simp add: numberToString16_def integerDigits16.simps toHex.simps hexDigits_def)

theorem toAssetBridgeAddress_counterexample:
  "toAssetBridgeAddress (2 ^ 53 + 1) = toAssetBridgeAddress (2 ^ 53)
     \<and> toAssetBridgeAddress (2 ^ 53 + 1) = ''0x2000000000000000000000000020000000000000''
     \<and> hexValue (drop 3 (toAssetBridgeAddress (2 ^ 53 + 1))) = 2 ^ 53
     \<and> (2 ^ 53 + 1 :: int) < 16 ^ 39
     \<and> length (toAssetBridgeAddress (16 ^ 39 - 1)) = 43
     \<and> toAssetBridgeAddress (16 ^ 39 - 1) = ''0x21000000000000000000000000000000000000000''"
proof -
  have r: "replicate 25 CHR ''0'' = ''0000000000000000000000000''"
    by code_simp
  have a: "toAssetBridgeAddress (2 ^ 53 + 1) = ''0x2000000000000000000000000020000000000000''"
    unfolding toAssetBridgeAddress_unfold toNumber_above_safe numberToString16_two_53 by (simp add: r)
  have b: "toAssetBridgeAddress (2 ^ 53) = ''0x2000000000000000000000000020000000000000''"
    unfolding toAssetBridgeAddress_unfold toNumber_two_53 numberToString16_two_53 by (simp add: r)
  have c: "toAssetBridgeAddress (16 ^ 39 - 1) = ''0x21000000000000000000000000000000000000000''"
    unfolding toAssetBridgeAddress_unfold toNumber_39_digits numberToString16_16_39 by simp
  have "hexValue ''000000000000000000000000020000000000000'' = 2 ^ 53"
    by (simp add: hexValue_def digitValue_def hexDigits_def)
  with a b c show ?thesis
    by simp
qed


section \<open>Properties of the helpers\<close>

lemma bindIO_returnIO [simp]: "bindIO (returnIO x) f = f x"
  by (simp add: bindIO_def returnIO_def)

lemma bindIO_throwIO [simp]: "bindIO (throwIO err) f = throwIO err"
  by (simp add: bindIO_def throwIO_def)

lemma now_record_event [simp]: "now (record_event ev d w) = now w + int d"
  by (simp add: record_event_def)

lemma trace_record_event [simp]: "trace (record_event ev d w) = trace w @ [ev]"
  by (simp add: record_event_def)

lemma now_sleep: "now w + 1 \<le> now (sleep e ms w)"
  by (simp add: sleep_def timerDelay_def)

lemma trace_sleep [simp]: "trace (sleep e ms w) = trace w @ [Sleep ms]"
  by (simp add: sleep_def)

lemma pollLoop_read_error:
  "read w = Some (Inl err, w1) \<Longrightarrow> pollLoop e label read ok t i s w = Some (Inl err, w1)"
  by (subst pollLoop.simps) simp

lemma pollLoop_satisfied:
  "read w = Some (Inr v, w1) \<Longrightarrow> ok v \<Longrightarrow> pollLoop e label read ok t i s w = Some (Inr v, w1)"
  by (subst pollLoop.simps) simp

lemma pollLoop_timeout:
  "read w = Some (Inr v, w1) \<Longrightarrow> \<not> ok v \<Longrightarrow> int t < now w1 - s \<Longrightarrow>
   pollLoop e label read ok t i s w
     = Some (Inl (Timeout label), record_event (PollTimedOut label) 0 w1)"
  by (subst pollLoop.simps) simp

lemma pollLoop_again:
  "read w = Some (Inr v, w1) \<Longrightarrow> \<not> ok v \<Longrightarrow> \<not> int t < now w1 - s \<Longrightarrow>
   pollLoop e label read ok t i s w = pollLoop e label read ok t i s (sleep e i w1)"
  by (subst pollLoop.simps) simp

lemma pollLoop_rule:
  assumes run: "pollLoop e label read ok t i s w = Some y"
    and inv: "I w"
    and step: "\<And>w v w1. I w \<Longrightarrow> read w = Some (Inr v, w1) \<Longrightarrow> \<not> ok v
                 \<Longrightarrow> \<not> int t < now w1 - s \<Longrightarrow> I (sleep e i w1)"
    and satisfied: "\<And>w v w1. I w \<Longrightarrow> read w = Some (Inr v, w1) \<Longrightarrow> ok v \<Longrightarrow> Q (Inr v, w1)"
    and failed: "\<And>w err w1. I w \<Longrightarrow> read w = Some (Inl err, w1) \<Longrightarrow> Q (Inl err, w1)"
    and timed_out: "\<And>w v w1. I w \<Longrightarrow> read w = Some (Inr v, w1) \<Longrightarrow> \<not> ok v
                 \<Longrightarrow> int t < now w1 - s
                 \<Longrightarrow> Q (Inl (Timeout label), record_event (PollTimedOut label) 0 w1)"
  shows "Q y"
proof -
  have "e' = e \<longrightarrow> label' = label \<longrightarrow> read' = read \<longrightarrow> ok' = ok \<longrightarrow> t' = t \<longrightarrow> i' = i
          \<longrightarrow> s' = s \<longrightarrow> I w' \<longrightarrow> Q y'"
    if "pollLoop e' label' read' ok' t' i' s' w' = Some y'" for e' label' read' ok' t' i' s' w' y'
    using that
  proof (rule pollLoop.raw_induct [where P = "\<lambda>e' label' read' ok' t' i' s' w' y'.
        e' = e \<longrightarrow> label' = label \<longrightarrow> read' = read \<longrightarrow> ok' = ok \<longrightarrow> t' = t \<longrightarrow> i' = i
          \<longrightarrow> s' = s \<longrightarrow> I w' \<longrightarrow> Q y'", rotated])
    fix f :: "env \<Rightarrow> string \<Rightarrow> 'a io \<Rightarrow> ('a \<Rightarrow> bool) \<Rightarrow> nat \<Rightarrow> nat \<Rightarrow> int \<Rightarrow> world
                \<Rightarrow> ((error + 'a) \<times> world) option"
    fix e' label' and read' :: "'a io" and ok' t' i' s' w' y'
    assume IH: "\<And>e' label' read' ok' t' i' s' w' y'.
        f e' label' read' ok' t' i' s' w' = Some y' \<Longrightarrow>
        e' = e \<longrightarrow> label' = label \<longrightarrow> read' = read \<longrightarrow> ok' = ok \<longrightarrow> t' = t \<longrightarrow> i' = i
          \<longrightarrow> s' = s \<longrightarrow> I w' \<longrightarrow> Q y'"
    assume body: "(case read' w' of
          None \<Rightarrow> None
        | Some (Inl err, w1) \<Rightarrow> Some (Inl err, w1)
        | Some (Inr v, w1) \<Rightarrow>
            if ok' v then Some (Inr v, w1)
            else if now w1 - s' > int t' then
              Some (Inl (Timeout label'), record_event (PollTimedOut label') 0 w1)
            else f e' label' read' ok' t' i' s' (sleep e' i' w1)) = Some y'"
    show "e' = e \<longrightarrow> label' = label \<longrightarrow> read' = read \<longrightarrow> ok' = ok \<longrightarrow> t' = t \<longrightarrow> i' = i
          \<longrightarrow> s' = s \<longrightarrow> I w' \<longrightarrow> Q y'"
    proof (intro impI)
      assume eqs: "e' = e" "label' = label" "read' = read" "ok' = ok" "t' = t" "i' = i" "s' = s"
        and Iw: "I w'"
      from body eqs obtain r w1 where rd: "read w' = Some (r, w1)"
        by (cases "read w'") auto
      show "Q y'"
      proof (cases r)
        case (Inl err)
        with body rd eqs have "y' = (Inl err, w1)" by simp
        with failed [OF Iw] rd Inl show ?thesis by simp
      next
        case (Inr v)
        show ?thesis
        proof (cases "ok v")
          case True
          with body rd eqs Inr have "y' = (Inr v, w1)" by simp
          with satisfied [OF Iw _ True] rd Inr show ?thesis by simp
        next
          case False
          show ?thesis
          proof (cases "int t < now w1 - s")
            case True
            with body rd eqs Inr False
            have "y' = (Inl (Timeout label), record_event (PollTimedOut label) 0 w1)" by simp
            with timed_out [OF Iw _ False True] rd Inr show ?thesis by simp
          next
            case nt: False
            with body rd eqs Inr False
            have "f e label read ok t i s (sleep e i w1) = Some y'" by simp
            moreover have "I (sleep e i w1)"
              using step [OF Iw _ False nt] rd Inr by simp
            ultimately show ?thesis
              using IH by blast
          qed
        qed
      qed
    qed
  qed
  with run inv show ?thesis by blast
qed

lemma pollLoop_terminates:
  assumes "steady read"
  shows "\<exists>r w'. pollLoop e label read ok t i s w = Some (r, w') \<and> now w \<le> now w'"
proof (induction "nat (s + int t + 1 - now w)" arbitrary: w rule: less_induct)
  case less
  from assms obtain r w1 where rd: "read w = Some (r, w1)" and mono: "now w \<le> now w1"
    unfolding steady_def by blast
  show ?case
  proof (cases r)
    case (Inl err)
    with rd mono show ?thesis by (simp add: pollLoop_read_error)
  next
    case (Inr v)
    show ?thesis
    proof (cases "ok v")
      case True
      with rd Inr mono show ?thesis by (simp add: pollLoop_satisfied)
    next
      case False
      show ?thesis
      proof (cases "int t < now w1 - s")
        case True
        with rd Inr False mono show ?thesis by (simp add: pollLoop_timeout)
      next
        case nt: False
        have adv: "now w1 + 1 \<le> now (sleep e i w1)" by (rule now_sleep)
        with mono nt have "nat (s + int t + 1 - now (sleep e i w1)) < nat (s + int t + 1 - now w)"
          by linarith
        then obtain r' w' where "pollLoop e label read ok t i s (sleep e i w1) = Some (r', w')"
          and "now (sleep e i w1) \<le> now w'"
          using less by blast
        with rd Inr False nt adv mono show ?thesis
          by (simp add: pollLoop_again)
      qed
    qed
  qed
qed

lemma pollUntil_unfold:
  "pollUntil e label read ok po w =
     pollLoop e label read ok (timeoutOf po) (intervalOf po) (now w)
       (record_event (PollStart label) 0 w)"
  by (simp add: pollUntil_def)

lemma timeoutOf_opts [simp]: "timeoutOf (opts t i) = t"
  by (simp add: timeoutOf_def opts_def)

lemma intervalOf_opts [simp]: "intervalOf (opts t i) = i"
  by (simp add: intervalOf_def opts_def)

lemma steady_readContract: "steady (readContract e rpc a f args)"
  by (auto simp: steady_def readContract_def Let_def split: prod.splits sum.splits)

lemma pollLoop_never_satisfied:
  assumes "\<forall>w. \<exists>v w1. read w = Some (Inr v, w1) \<and> \<not> ok v \<and> now w \<le> now w1"
  shows "\<exists>w'. pollLoop e label read ok t i s w = Some (Inl (Timeout label), w')"
proof (induction "nat (s + int t + 1 - now w)" arbitrary: w rule: less_induct)
  case less
  from assms obtain v w1 where rd: "read w = Some (Inr v, w1)" and nok: "\<not> ok v"
    and mono: "now w \<le> now w1"
    by blast
  show ?case
  proof (cases "int t < now w1 - s")
    case True
    with rd nok show ?thesis by (simp add: pollLoop_timeout)
  next
    case nt: False
    have "now w1 + 1 \<le> now (sleep e i w1)" by (rule now_sleep)
    with mono nt have "nat (s + int t + 1 - now (sleep e i w1)) < nat (s + int t + 1 - now w)"
      by linarith
    then obtain w' where "pollLoop e label read ok t i s (sleep e i w1) = Some (Inl (Timeout label), w')"
      using less by blast
    with rd nok nt show ?thesis
      by (simp add: pollLoop_again)
  qed
qed

lemma loop_head_pollLoop:
  "loop_head e read ok t i s k w = Some wk \<Longrightarrow>
   pollLoop e label read ok t i s w = pollLoop e label read ok t i s wk"
proof (induction k arbitrary: w)
  case 0
  then show ?case by simp
next
  case (Suc k)
  from Suc.prems obtain v w1 where rd: "read w = Some (Inr v, w1)" and nok: "\<not> ok v"
    and nt: "\<not> int t < now w1 - s"
    and rest: "loop_head e read ok t i s k (sleep e i w1) = Some wk"
    by (auto split: option.splits prod.splits sum.splits if_splits)
  from rd nok nt have "pollLoop e label read ok t i s w
      = pollLoop e label read ok t i s (sleep e i w1)"
    by (rule pollLoop_again)
  also have "\<dots> = pollLoop e label read ok t i s wk"
    using rest by (rule Suc.IH)
  finally show ?case .
qed

subsection \<open>The poller\<close>

text \<open>
  Claim C5. The at-least predicate accepts a balance exactly when it has reached the
  snapshot plus the expected amount. With a snapshot of 100 and an amount of 50, the samples
  100, 100, 130 are rejected and 151 is accepted: a poll of a ledger showing these samples
  at successive intervals returns 151 at its fourth read, after three sleeps. A ledger
  whose balance never rises above 140 is never accepted, and the poll ends with the timeout
  error, whatever the timeout and the interval are.
\<close>

theorem at_least_confirmation:
  "(confirm_at_least before amountWei bal \<longleftrightarrow> bal \<ge> before + amountWei)
   \<and> map (confirm_at_least 100 50) [100, 100, 130, 151] = [False, False, False, True]
   \<and> pollUntil (balance_env quiet_env (sampled [100, 100, 130, 151] 2000) 0)
        ''HyperEVM token balance credited from HyperCore''
        (readContract (balance_env quiet_env (sampled [100, 100, 130, 151] 2000) 0)
           hyperEvmRpcUrl ''0xe74aA6C4050A15790525eB11cc4562c664dC67C9'' ''balanceOf'' [''0xabc''])
        (confirm_at_least 100 50) (opts (5 * 60000) 2000) start
      = Some (Inr 151,
          \<lparr>now = 6000,
           trace =
             [PollStart ''HyperEVM token balance credited from HyperCore'',
              ReadContract hyperEvmRpcUrl ''0xe74aA6C4050A15790525eB11cc4562c664dC67C9'' ''balanceOf'' [''0xabc''],
              Sleep 2000,
              ReadContract hyperEvmRpcUrl ''0xe74aA6C4050A15790525eB11cc4562c664dC67C9'' ''balanceOf'' [''0xabc''],
              Sleep 2000,
              ReadContract hyperEvmRpcUrl ''0xe74aA6C4050A15790525eB11cc4562c664dC67C9'' ''balanceOf'' [''0xabc''],
              Sleep 2000,
              ReadContract hyperEvmRpcUrl ''0xe74aA6C4050A15790525eB11cc4562c664dC67C9'' ''balanceOf'' [''0xabc'']]\<rparr>)
   \<and> (\<exists>w'. pollUntil (balance_env e (capped f 140) d) label
              (readContract (balance_env e (capped f 140) d) rpc address ''balanceOf'' args)
              (confirm_at_least 100 50) po w
            = Some (Inl (Timeout label), w'))"
proof -
  have a: "confirm_at_least before amountWei bal \<longleftrightarrow> bal \<ge> before + amountWei"
    by (simp add: confirm_at_least_def)
  have b: "map (confirm_at_least 100 50) [100, 100, 130, 151] = [False, False, False, True]"
    by (simp add: confirm_at_least_def)
  have c: "pollUntil (balance_env quiet_env (sampled [100, 100, 130, 151] 2000) 0)
        ''HyperEVM token balance credited from HyperCore''
        (readContract (balance_env quiet_env (sampled [100, 100, 130, 151] 2000) 0)
           hyperEvmRpcUrl ''0xe74aA6C4050A15790525eB11cc4562c664dC67C9'' ''balanceOf'' [''0xabc''])
        (confirm_at_least 100 50) (opts (5 * 60000) 2000) start
      = Some (Inr 151,
          \<lparr>now = 6000,
           trace =
             [PollStart ''HyperEVM token balance credited from HyperCore'',
              ReadContract hyperEvmRpcUrl ''0xe74aA6C4050A15790525eB11cc4562c664dC67C9'' ''balanceOf'' [''0xabc''],
              Sleep 2000,
              ReadContract hyperEvmRpcUrl ''0xe74aA6C4050A15790525eB11cc4562c664dC67C9'' ''balanceOf'' [''0xabc''],
              Sleep 2000,
              ReadContract hyperEvmRpcUrl ''0xe74aA6C4050A15790525eB11cc4562c664dC67C9'' ''balanceOf'' [''0xabc''],
              Sleep 2000,
              ReadContract hyperEvmRpcUrl ''0xe74aA6C4050A15790525eB11cc4562c664dC67C9'' ''balanceOf'' [''0xabc'']]\<rparr>)"
    apply (simp add: pollUntil_unfold start_def)
    apply (subst pollLoop.simps, simp add: readContract_def balance_env_def quiet_env_def
        sampled_def confirm_at_least_def sleep_def timerDelay_def record_event_def)+
    done
  have "\<forall>w. \<exists>v w1. readContract (balance_env e (capped f 140) d) rpc address ''balanceOf'' args w
            = Some (Inr v, w1) \<and> \<not> confirm_at_least 100 50 v \<and> now w \<le> now w1"
    by (simp add: readContract_def balance_env_def confirm_at_least_def capped_def)
  then have d: "\<exists>w'. pollUntil (balance_env e (capped f 140) d) label
              (readContract (balance_env e (capped f 140) d) rpc address ''balanceOf'' args)
              (confirm_at_least 100 50) po w
            = Some (Inl (Timeout label), w')"
    unfolding pollUntil_unfold by (rule pollLoop_never_satisfied)
  from a b c d show ?thesis by blast
qed

text \<open>
  Claim C8. \<open>pollUntil\<close> reads at once, and when the first value satisfies the predicate it
  returns that value in the world the read left: no timer was set. For the first hop of the
  flow to HyperCore, whose predicate is \<open>bal > wrapperBalBefore\<close>, a first read that shows
  a balance above the snapshot ends the poll with that balance, after the read alone.
\<close>

theorem pollUntil_first_read:
  "(read (record_event (PollStart label) 0 w) = Some (Inr v, w1) \<and> ok v
      \<longrightarrow> pollUntil e label read ok po w = Some (Inr v, w1))
   \<and> (readContractAnswer e (record_event (PollStart label) 0 w) rpc address fn args = (Inr bal, d)
        \<and> bal > before
      \<longrightarrow> pollUntil e label (readContract e rpc address fn args) (confirm_increase before) po w
            = Some (Inr bal,
                \<lparr>now = now w + int d,
                 trace = trace w @ [PollStart label, ReadContract rpc address fn args]\<rparr>))"
proof (intro conjI impI)
  assume "read (record_event (PollStart label) 0 w) = Some (Inr v, w1) \<and> ok v"
  then show "pollUntil e label read ok po w = Some (Inr v, w1)"
    unfolding pollUntil_unfold by (intro pollLoop_satisfied) simp_all
next
  assume a: "readContractAnswer e (record_event (PollStart label) 0 w) rpc address fn args
       = (Inr bal, d) \<and> bal > before"
  then have "readContract e rpc address fn args (record_event (PollStart label) 0 w)
      = Some (Inr bal, \<lparr>now = now w + int d,
                 trace = trace w @ [PollStart label, ReadContract rpc address fn args]\<rparr>)"
    by (simp add: readContract_def record_event_def)
  moreover from a have "confirm_increase before bal"
    by (simp add: confirm_increase_def)
  ultimately show "pollUntil e label (readContract e rpc address fn args)
       (confirm_increase before) po w
     = Some (Inr bal, \<lparr>now = now w + int d,
                 trace = trace w @ [PollStart label, ReadContract rpc address fn args]\<rparr>)"
    unfolding pollUntil_unfold by (rule pollLoop_satisfied)
qed

theorem pollUntil_first_read_witness:
  "pollUntil (balance_env quiet_env (\<lambda>t. 7) 30) ''wrapper balance increase after wrap''
     (readContract (balance_env quiet_env (\<lambda>t. 7) 30) ''rpc'' ''0x8edE'' ''balanceOf'' [''0xabc''])
     (confirm_increase 0) (opts (2 * 60000) 3000) start
   = Some (Inr 7,
       \<lparr>now = 30,
        trace = [PollStart ''wrapper balance increase after wrap'',
                 ReadContract ''rpc'' ''0x8edE'' ''balanceOf'' [''0xabc'']]\<rparr>)"
  using pollUntil_first_read [where label = "''wrapper balance increase after wrap''"
      and w = start and e = "balance_env quiet_env (\<lambda>t. 7) 30" and po = "opts (2 * 60000) 3000"
      and rpc = "''rpc''" and address = "''0x8edE''" and fn = "''balanceOf''"
      and args = "[''0xabc'']" and bal = 7 and d = 30 and before = 0, THEN conjunct2]
  by (simp add: balance_env_def start_def)

text \<open>
  Claim C9. When a read of the poll rejects, at the first round or after any number of
  rounds, \<open>pollUntil\<close> rejects with that very error in the world the failed read left: the
  error is not caught, no further read or timer follows, and the clock plays no part;
  whatever \<open>main\<close> would do after the poll is not done. The reads of the flows reject when
  the info endpoint answers with a status that is not OK and when the contract read fails.
\<close>

theorem pollUntil_read_error:
  "(loop_head e read ok (timeoutOf po) (intervalOf po) (now w) k
        (record_event (PollStart label) 0 w) = Some wk
      \<and> read wk = Some (Inl err, w')
      \<longrightarrow> pollUntil e label read ok po w = Some (Inl err, w')
        \<and> bindIO (pollUntil e label read ok po) rest w = Some (Inl err, w'))
   \<and> (fetchAnswer e wk infoUrl user = (Response status statusText body, d) \<and> \<not> res_ok status
      \<longrightarrow> bindIO (fetchHyperCoreSpotTotal e user tokenIndex) (spotTotalWei e tokenDecimals) wk
            = Some (Inl (HyperCoreApiError status statusText),
                    record_event (Fetch infoUrl user) d wk))
   \<and> (readContractAnswer e wk rpc address fn args = (Inl msg, d)
      \<longrightarrow> readContract e rpc address fn args wk
            = Some (Inl (LibraryError msg),
                    record_event (ReadContract rpc address fn args) d wk))"
proof (intro conjI impI)
  assume a: "loop_head e read ok (timeoutOf po) (intervalOf po) (now w) k
        (record_event (PollStart label) 0 w) = Some wk
      \<and> read wk = Some (Inl err, w')"
  then have a1: "loop_head e read ok (timeoutOf po) (intervalOf po) (now w) k
        (record_event (PollStart label) 0 w) = Some wk"
    and a2: "read wk = Some (Inl err, w')"
    by simp_all
  have "pollUntil e label read ok po w
      = pollLoop e label read ok (timeoutOf po) (intervalOf po) (now w) wk"
    unfolding pollUntil_unfold using a1 by (rule loop_head_pollLoop)
  also have "\<dots> = Some (Inl err, w')"
    using a2 by (rule pollLoop_read_error)
  finally show p: "pollUntil e label read ok po w = Some (Inl err, w')" .
  then show "bindIO (pollUntil e label read ok po) rest w = Some (Inl err, w')"
    by (simp add: bindIO_def)
next
  assume "fetchAnswer e wk infoUrl user = (Response status statusText body, d) \<and> \<not> res_ok status"
  then show "bindIO (fetchHyperCoreSpotTotal e user tokenIndex) (spotTotalWei e tokenDecimals) wk
            = Some (Inl (HyperCoreApiError status statusText),
                    record_event (Fetch infoUrl user) d wk)"
    by (simp add: bindIO_def fetchHyperCoreSpotTotal_def)
next
  assume "readContractAnswer e wk rpc address fn args = (Inl msg, d)"
  then show "readContract e rpc address fn args wk
            = Some (Inl (LibraryError msg),
                    record_event (ReadContract rpc address fn args) d wk)"
    by (simp add: readContract_def)
qed

theorem pollUntil_read_error_witness:
  "pollUntil (flaky_env quiet_env 3000) ''wrapper balance increase after wrap''
     (readContract (flaky_env quiet_env 3000) ''rpc'' ''0x8edE'' ''balanceOf'' [''0xabc''])
     (confirm_increase 0) (opts (2 * 60000) 3000) start
   = Some (Inl (LibraryError ''HTTP request failed''),
       \<lparr>now = 3000,
        trace = [PollStart ''wrapper balance increase after wrap'',
                 ReadContract ''rpc'' ''0x8edE'' ''balanceOf'' [''0xabc''],
                 Sleep 3000,
                 ReadContract ''rpc'' ''0x8edE'' ''balanceOf'' [''0xabc'']]\<rparr>)"
proof -
  let ?e = "flaky_env quiet_env 3000"
  let ?read = "readContract ?e ''rpc'' ''0x8edE'' ''balanceOf'' [''0xabc'']"
  let ?wk = "\<lparr>now = 3000,
        trace = [PollStart ''wrapper balance increase after wrap'',
                 ReadContract ''rpc'' ''0x8edE'' ''balanceOf'' [''0xabc''],
                 Sleep 3000]\<rparr>"
  have h: "loop_head ?e ?read (confirm_increase 0) (timeoutOf (opts (2 * 60000) 3000))
        (intervalOf (opts (2 * 60000) 3000)) (now start) (Suc 0)
        (record_event (PollStart ''wrapper balance increase after wrap'') 0 start) = Some ?wk"
    by (simp add: readContract_def flaky_env_def quiet_env_def start_def record_event_def
        confirm_increase_def sleep_def timerDelay_def)
  have r: "?read ?wk = Some (Inl (LibraryError ''HTTP request failed''),
       \<lparr>now = 3000,
        trace = [PollStart ''wrapper balance increase after wrap'',
                 ReadContract ''rpc'' ''0x8edE'' ''balanceOf'' [''0xabc''],
                 Sleep 3000,
                 ReadContract ''rpc'' ''0x8edE'' ''balanceOf'' [''0xabc'']]\<rparr>)"
    by (simp add: readContract_def flaky_env_def quiet_env_def record_event_def)
  from pollUntil_read_error [where e = ?e and read = ?read and k = "Suc 0" and wk = ?wk
      and w = start and label = "''wrapper balance increase after wrap''"
      and ok = "confirm_increase 0" and po = "opts (2 * 60000) 3000"] h r
  show ?thesis by blast
qed

subsection \<open>The tolerance band\<close>

lemma bigint_div_nonneg: "0 \<le> a \<Longrightarrow> bigint_div a 1000 = \<lfloor>real_of_int a / 1000\<rfloor>"
proof -
  assume "0 \<le> a"
  then have "bigint_div a 1000 = a div 1000"
    by (cases "a = 0") (simp_all add: bigint_div_def)
  also have "\<dots> = \<lfloor>real_of_int a / real_of_int 1000\<rfloor>"
    by (rule floor_divide_of_int_eq [symmetric])
  finally show ?thesis by simp
qed

text \<open>
  Claim C4. The hop into HyperCore accepts a balance exactly when it has reached the
  snapshot plus the floor of \<open>expectedDelta * 999 / 1000\<close>, where \<open>expectedDelta\<close> is
  \<open>coreAmountWei\<close>, the amount that the hop's child has transferred: an amount of tokens,
  which is not negative. When 1000 smallest units are expected, a balance 999 above the
  snapshot is accepted and a balance 998 above it is not.
\<close>

theorem tolerance_confirmation:
  assumes "0 \<le> coreAmountWei"
  shows "(confirm_tolerance coreBalBefore coreAmountWei bal \<longleftrightarrow>
            bal \<ge> coreBalBefore + \<lfloor>real_of_int (coreAmountWei * 999) / 1000\<rfloor>)
         \<and> confirm_tolerance coreBalBefore 1000 (coreBalBefore + 999)
         \<and> \<not> confirm_tolerance coreBalBefore 1000 (coreBalBefore + 998)"
proof (intro conjI)
  from assms have "0 \<le> coreAmountWei * 999" by simp
  then have "bigint_div (coreAmountWei * 999) 1000 = \<lfloor>real_of_int (coreAmountWei * 999) / 1000\<rfloor>"
    by (rule bigint_div_nonneg)
  then show "confirm_tolerance coreBalBefore coreAmountWei bal \<longleftrightarrow>
      bal \<ge> coreBalBefore + \<lfloor>real_of_int (coreAmountWei * 999) / 1000\<rfloor>"
    by (simp add: confirm_tolerance_def)
  show "confirm_tolerance coreBalBefore 1000 (coreBalBefore + 999)"
    by (simp add: confirm_tolerance_def bigint_div_def)
  show "\<not> confirm_tolerance coreBalBefore 1000 (coreBalBefore + 998)"
    by (simp add: confirm_tolerance_def bigint_div_def)
qed

theorem tolerance_confirmation_witness:
  "(0::int) \<le> 1000
   \<and> \<lfloor>real_of_int (1000 * 999) / 1000\<rfloor> = (999::int)
   \<and> confirm_tolerance 0 1000 999
   \<and> \<not> confirm_tolerance 0 1000 998
   \<and> confirm_tolerance 0 1000 1000
   \<and> confirm_tolerance 0 1500 1498
   \<and> \<not> confirm_tolerance 0 1500 1497"
  using tolerance_confirmation [of 1000 0 999] tolerance_confirmation [of 1000 0 998]
    tolerance_confirmation [of 1000 0 1000] tolerance_confirmation [of 1500 0 1498]
    tolerance_confirmation [of 1500 0 1497]
  by simp

subsection \<open>The contract of the poller\<close>

lemma loop_head_Suc:
  "loop_head e read ok t i s k w = Some wk \<Longrightarrow> read wk = Some (Inr v, w1) \<Longrightarrow> \<not> ok v
   \<Longrightarrow> \<not> int t < now w1 - s
   \<Longrightarrow> loop_head e read ok t i s (Suc k) w = Some (sleep e i w1)"
proof (induction k arbitrary: w)
  case 0
  then show ?case by simp
next
  case (Suc k)
  from Suc.prems(1) obtain v' w1' where rd: "read w = Some (Inr v', w1')" and nok: "\<not> ok v'"
    and nt: "\<not> int t < now w1' - s"
    and rest: "loop_head e read ok t i s k (sleep e i w1') = Some wk"
    by (auto split: option.splits prod.splits sum.splits if_splits)
  from rest Suc.prems(2-4) have "loop_head e read ok t i s (Suc k) (sleep e i w1') = Some (sleep e i w1)"
    by (rule Suc.IH)
  with rd nok nt show ?case
    by (subst loop_head.simps) simp
qed

text \<open>
  Claim C3, as the code has it. A poll of a steady read always settles, and what it settles
  with is decided at the first round that does not go on. Every round starts with a read.
  When the read rejects, the poll rejects with that error. When the read returns a value
  that satisfies the predicate, the poll returns that value, at once. When the value does
  not satisfy the predicate and more than the timeout has passed since the call, the poll
  rejects with the timeout error, which carries the label and nothing else. Otherwise the
  poll sets a timer for the configured interval and starts the next round when it fires.
\<close>

theorem pollUntil_contract:
  fixes read :: "'a io"
  assumes "steady read"
  shows "(\<exists>r w' k wk.
            pollUntil e label read ok po w = Some (r, w')
            \<and> loop_head e read ok (timeoutOf po) (intervalOf po) (now w) k
                (record_event (PollStart label) 0 w) = Some wk
            \<and> (case r of
                  Inr v \<Rightarrow> ok v \<and> read wk = Some (Inr v, w')
                | Inl err \<Rightarrow>
                    read wk = Some (Inl err, w')
                    \<or> (\<exists>v w1. read wk = Some (Inr v, w1) \<and> \<not> ok v
                          \<and> int (timeoutOf po) < now w1 - now w
                          \<and> err = Timeout label
                          \<and> w' = record_event (PollTimedOut label) 0 w1)))
         \<and> (\<forall>k wk v w1.
               loop_head e read ok (timeoutOf po) (intervalOf po) (now w) k
                 (record_event (PollStart label) 0 w) = Some wk
               \<and> read wk = Some (Inr v, w1)
               \<longrightarrow> (if ok v then pollUntil e label read ok po w = Some (Inr v, w1)
                    else if int (timeoutOf po) < now w1 - now w
                    then pollUntil e label read ok po w
                           = Some (Inl (Timeout label), record_event (PollTimedOut label) 0 w1)
                    else loop_head e read ok (timeoutOf po) (intervalOf po) (now w) (Suc k)
                           (record_event (PollStart label) 0 w) = Some (sleep e (intervalOf po) w1)
                         \<and> trace (sleep e (intervalOf po) w1) = trace w1 @ [Sleep (intervalOf po)]
                         \<and> now w1 + int (timerDelay (intervalOf po))
                             \<le> now (sleep e (intervalOf po) w1)))"
proof (intro conjI allI impI)
  let ?t = "timeoutOf po" and ?i = "intervalOf po" and ?w0 = "record_event (PollStart label) 0 w"
  let ?I = "\<lambda>wk. \<exists>k. loop_head e read ok ?t ?i (now w) k ?w0 = Some wk"
  let ?Q = "\<lambda>y :: (error + 'a) \<times> world. \<exists>k wk.
              loop_head e read ok ?t ?i (now w) k ?w0 = Some wk
              \<and> (case fst y of
                    Inr v \<Rightarrow> ok v \<and> read wk = Some (Inr v, snd y)
                  | Inl err \<Rightarrow>
                      read wk = Some (Inl err, snd y)
                      \<or> (\<exists>v w1. read wk = Some (Inr v, w1) \<and> \<not> ok v
                            \<and> int ?t < now w1 - now w
                            \<and> err = Timeout label
                            \<and> snd y = record_event (PollTimedOut label) 0 w1))"
  from pollLoop_terminates [OF assms] obtain r w'
    where run: "pollLoop e label read ok ?t ?i (now w) ?w0 = Some (r, w')"
    by blast
  have "?Q (r, w')"
    using run
  proof (rule pollLoop_rule [where I = ?I])
    have "loop_head e read ok ?t ?i (now w) 0 ?w0 = Some ?w0"
      by simp
    then show "?I ?w0" ..
  next
    fix wk v w1
    assume "?I wk" and rd: "read wk = Some (Inr v, w1)" and nok: "\<not> ok v"
      and nt: "\<not> int ?t < now w1 - now w"
    then obtain k where "loop_head e read ok ?t ?i (now w) k ?w0 = Some wk"
      by blast
    then have "loop_head e read ok ?t ?i (now w) (Suc k) ?w0 = Some (sleep e ?i w1)"
      using rd nok nt by (rule loop_head_Suc)
    then show "?I (sleep e ?i w1)" ..
  next
    fix wk v w1
    assume "?I wk" and "read wk = Some (Inr v, w1)" and "ok v"
    then show "?Q (Inr v, w1)"
      by auto
  next
    fix wk err w1
    assume "?I wk" and "read wk = Some (Inl err, w1)"
    then show "?Q (Inl err, w1)"
      by auto
  next
    fix wk v w1
    assume "?I wk" and "read wk = Some (Inr v, w1)" and "\<not> ok v" and "int ?t < now w1 - now w"
    then show "?Q (Inl (Timeout label), record_event (PollTimedOut label) 0 w1)"
      by auto
  qed
  then have "\<exists>k wk. loop_head e read ok ?t ?i (now w) k ?w0 = Some wk
      \<and> (case r of
            Inr v \<Rightarrow> ok v \<and> read wk = Some (Inr v, w')
          | Inl err \<Rightarrow>
              read wk = Some (Inl err, w')
              \<or> (\<exists>v w1. read wk = Some (Inr v, w1) \<and> \<not> ok v
                    \<and> int ?t < now w1 - now w
                    \<and> err = Timeout label
                    \<and> w' = record_event (PollTimedOut label) 0 w1))"
    by (cases r) simp_all
  with run show "\<exists>r w' k wk.
            pollUntil e label read ok po w = Some (r, w')
            \<and> loop_head e read ok (timeoutOf po) (intervalOf po) (now w) k
                (record_event (PollStart label) 0 w) = Some wk
            \<and> (case r of
                  Inr v \<Rightarrow> ok v \<and> read wk = Some (Inr v, w')
                | Inl err \<Rightarrow>
                    read wk = Some (Inl err, w')
                    \<or> (\<exists>v w1. read wk = Some (Inr v, w1) \<and> \<not> ok v
                          \<and> int (timeoutOf po) < now w1 - now w
                          \<and> err = Timeout label
                          \<and> w' = record_event (PollTimedOut label) 0 w1))"
    unfolding pollUntil_unfold by blast
next
  fix k wk v w1
  assume a: "loop_head e read ok (timeoutOf po) (intervalOf po) (now w) k
                 (record_event (PollStart label) 0 w) = Some wk
               \<and> read wk = Some (Inr v, w1)"
  then have h: "loop_head e read ok (timeoutOf po) (intervalOf po) (now w) k
                 (record_event (PollStart label) 0 w) = Some wk"
    and rd: "read wk = Some (Inr v, w1)"
    by simp_all
  have p: "pollUntil e label read ok po w
      = pollLoop e label read ok (timeoutOf po) (intervalOf po) (now w) wk"
    unfolding pollUntil_unfold using h by (rule loop_head_pollLoop)
  show "if ok v then pollUntil e label read ok po w = Some (Inr v, w1)
        else if int (timeoutOf po) < now w1 - now w
        then pollUntil e label read ok po w
               = Some (Inl (Timeout label), record_event (PollTimedOut label) 0 w1)
        else loop_head e read ok (timeoutOf po) (intervalOf po) (now w) (Suc k)
               (record_event (PollStart label) 0 w) = Some (sleep e (intervalOf po) w1)
             \<and> trace (sleep e (intervalOf po) w1) = trace w1 @ [Sleep (intervalOf po)]
             \<and> now w1 + int (timerDelay (intervalOf po)) \<le> now (sleep e (intervalOf po) w1)"
  proof (cases "ok v")
    case True
    with rd show ?thesis
      by (simp add: p pollLoop_satisfied)
  next
    case nok: False
    show ?thesis
    proof (cases "int (timeoutOf po) < now w1 - now w")
      case True
      with rd nok show ?thesis
        by (simp add: p pollLoop_timeout)
    next
      case False
      with h rd nok have "loop_head e read ok (timeoutOf po) (intervalOf po) (now w) (Suc k)
               (record_event (PollStart label) 0 w) = Some (sleep e (intervalOf po) w1)"
        by (intro loop_head_Suc)
      with nok False show ?thesis
        by (simp add: sleep_def)
    qed
  qed
qed

text \<open>
  A ledger that stays at 140, polled for 150 with a timeout of 10 seconds and an interval
  of 5 seconds: the rounds at 0, 5 and 10 seconds go on, the round at 15 seconds times out.
\<close>

theorem pollUntil_contract_witness:
  "pollUntil (balance_env quiet_env (constant_balance 140) 0) ''credited''
     (readContract (balance_env quiet_env (constant_balance 140) 0) ''rpc'' ''0xe74a''
        ''balanceOf'' [''0xabc''])
     (confirm_at_least 100 50) (opts 10000 5000) start
   = Some (Inl (Timeout ''credited''),
       \<lparr>now = 15000,
        trace = [PollStart ''credited'',
          ReadContract ''rpc'' ''0xe74a'' ''balanceOf'' [''0xabc''], Sleep 5000,
          ReadContract ''rpc'' ''0xe74a'' ''balanceOf'' [''0xabc''], Sleep 5000,
          ReadContract ''rpc'' ''0xe74a'' ''balanceOf'' [''0xabc''], Sleep 5000,
          ReadContract ''rpc'' ''0xe74a'' ''balanceOf'' [''0xabc''],
          PollTimedOut ''credited'']\<rparr>)"
proof -
  let ?e = "balance_env quiet_env (constant_balance 140) 0"
  let ?read = "readContract ?e ''rpc'' ''0xe74a'' ''balanceOf'' [''0xabc'']"
  let ?wk = "\<lparr>now = 15000,
        trace = [PollStart ''credited'',
          ReadContract ''rpc'' ''0xe74a'' ''balanceOf'' [''0xabc''], Sleep 5000,
          ReadContract ''rpc'' ''0xe74a'' ''balanceOf'' [''0xabc''], Sleep 5000,
          ReadContract ''rpc'' ''0xe74a'' ''balanceOf'' [''0xabc''], Sleep 5000]\<rparr>"
  let ?w1 = "\<lparr>now = 15000,
        trace = [PollStart ''credited'',
          ReadContract ''rpc'' ''0xe74a'' ''balanceOf'' [''0xabc''], Sleep 5000,
          ReadContract ''rpc'' ''0xe74a'' ''balanceOf'' [''0xabc''], Sleep 5000,
          ReadContract ''rpc'' ''0xe74a'' ''balanceOf'' [''0xabc''], Sleep 5000,
          ReadContract ''rpc'' ''0xe74a'' ''balanceOf'' [''0xabc'']]\<rparr>"
  have h: "loop_head ?e ?read (confirm_at_least 100 50) (timeoutOf (opts 10000 5000))
        (intervalOf (opts 10000 5000)) (now start) (Suc (Suc (Suc 0)))
        (record_event (PollStart ''credited'') 0 start) = Some ?wk"
    by (simp add: readContract_def balance_env_def quiet_env_def start_def record_event_def
        constant_balance_def confirm_at_least_def sleep_def timerDelay_def)
  have r: "?read ?wk = Some (Inr 140, ?w1)"
    by (simp add: readContract_def balance_env_def quiet_env_def record_event_def
        constant_balance_def)
  from pollUntil_contract [OF steady_readContract, THEN conjunct2, rule_format,
      OF conjI [OF h r]]
  show ?thesis
    by (simp add: confirm_at_least_def start_def record_event_def)
qed


text \<open>
  The claim as it was stated lets the timeout error carry the elapsed time and the last
  value read. Two polls with the same label, one of a ledger that stays at 140 with a
  timeout of 10 seconds and one of a ledger that stays at 7 with a timeout of 20 seconds,
  reject with the same error, after 15 and after 25 seconds.
\<close>

theorem timeout_error_counterexample:
  "map_option fst
     (pollUntil (balance_env quiet_env (constant_balance 140) 0) ''credited''
        (readContract (balance_env quiet_env (constant_balance 140) 0) ''rpc'' ''0xe74a''
           ''balanceOf'' [''0xabc''])
        (confirm_at_least 100 50) (opts 10000 5000) start)
     = Some (Inl (Timeout ''credited''))
   \<and> map_option fst
     (pollUntil (balance_env quiet_env (constant_balance 7) 0) ''credited''
        (readContract (balance_env quiet_env (constant_balance 7) 0) ''rpc'' ''0xe74a''
           ''balanceOf'' [''0xabc''])
        (confirm_at_least 100 50) (opts 20000 5000) start)
     = Some (Inl (Timeout ''credited''))
   \<and> map_option (now \<circ> snd)
     (pollUntil (balance_env quiet_env (constant_balance 140) 0) ''credited''
        (readContract (balance_env quiet_env (constant_balance 140) 0) ''rpc'' ''0xe74a''
           ''balanceOf'' [''0xabc''])
        (confirm_at_least 100 50) (opts 10000 5000) start)
     = Some 15000
   \<and> map_option (now \<circ> snd)
     (pollUntil (balance_env quiet_env (constant_balance 7) 0) ''credited''
        (readContract (balance_env quiet_env (constant_balance 7) 0) ''rpc'' ''0xe74a''
           ''balanceOf'' [''0xabc''])
        (confirm_at_least 100 50) (opts 20000 5000) start)
     = Some 25000"
proof -
  have a: "pollUntil (balance_env quiet_env (constant_balance 140) 0) ''credited''
        (readContract (balance_env quiet_env (constant_balance 140) 0) ''rpc'' ''0xe74a''
           ''balanceOf'' [''0xabc''])
        (confirm_at_least 100 50) (opts 10000 5000) start
     = Some (Inl (Timeout ''credited''),
         \<lparr>now = 15000,
          trace = [PollStart ''credited'',
            ReadContract ''rpc'' ''0xe74a'' ''balanceOf'' [''0xabc''], Sleep 5000,
            ReadContract ''rpc'' ''0xe74a'' ''balanceOf'' [''0xabc''], Sleep 5000,
            ReadContract ''rpc'' ''0xe74a'' ''balanceOf'' [''0xabc''], Sleep 5000,
            ReadContract ''rpc'' ''0xe74a'' ''balanceOf'' [''0xabc''],
            PollTimedOut ''credited'']\<rparr>)"
    apply (simp add: pollUntil_unfold start_def)
    apply (subst pollLoop.simps, simp add: readContract_def balance_env_def quiet_env_def
        constant_balance_def confirm_at_least_def sleep_def timerDelay_def record_event_def)+
    done
  have b: "pollUntil (balance_env quiet_env (constant_balance 7) 0) ''credited''
        (readContract (balance_env quiet_env (constant_balance 7) 0) ''rpc'' ''0xe74a''
           ''balanceOf'' [''0xabc''])
        (confirm_at_least 100 50) (opts 20000 5000) start
     = Some (Inl (Timeout ''credited''),
         \<lparr>now = 25000,
          trace = [PollStart ''credited'',
            ReadContract ''rpc'' ''0xe74a'' ''balanceOf'' [''0xabc''], Sleep 5000,
            ReadContract ''rpc'' ''0xe74a'' ''balanceOf'' [''0xabc''], Sleep 5000,
            ReadContract ''rpc'' ''0xe74a'' ''balanceOf'' [''0xabc''], Sleep 5000,
            ReadContract ''rpc'' ''0xe74a'' ''balanceOf'' [''0xabc''], Sleep 5000,
            ReadContract ''rpc'' ''0xe74a'' ''balanceOf'' [''0xabc''], Sleep 5000,
            ReadContract ''rpc'' ''0xe74a'' ''balanceOf'' [''0xabc''],
            PollTimedOut ''credited'']\<rparr>)"
    apply (simp add: pollUntil_unfold start_def)
    apply (subst pollLoop.simps, simp add: readContract_def balance_env_def quiet_env_def
        constant_balance_def confirm_at_least_def sleep_def timerDelay_def record_event_def)+
    done
  show ?thesis
    by (simp add: a b)
qed

subsection \<open>The balance observer of HyperCore\<close>





section \<open>Runs of the flow scripts\<close>

lemma behavesI:
  assumes "\<And>w. \<exists>r w' evs. m w = Some (r, w') \<and> now w \<le> now w' \<and> trace w' = trace w @ evs \<and> P r evs"
  shows "behaves m P"
  using assms by (simp add: behaves_def)

lemma behavesD:
  assumes "behaves m P"
  obtains r w' evs where "m w = Some (r, w')" "now w \<le> now w'" "trace w' = trace w @ evs" "P r evs"
  using assms unfolding behaves_def by blast

lemma behaves_weaken:
  assumes "behaves m P" and "\<And>r evs. P r evs \<Longrightarrow> Q r evs"
  shows "behaves m Q"
  using assms unfolding behaves_def by blast

lemma behaves_steady: "behaves m P \<Longrightarrow> steady m"
  unfolding behaves_def steady_def by blast

lemma behaves_returnIO: "P (Inr x) [] \<Longrightarrow> behaves (returnIO x) P"
  by (simp add: behaves_def returnIO_def)

lemma behaves_throwIO: "P (Inl err) [] \<Longrightarrow> behaves (throwIO err) P"
  by (simp add: behaves_def throwIO_def)

lemma behaves_bindIO:
  assumes m: "behaves m P"
    and f: "\<And>x. behaves (f x) (Q x)"
    and err: "\<And>err evs. P (Inl err) evs \<Longrightarrow> R (Inl err) evs"
    and seq: "\<And>x evs1 r evs2. P (Inr x) evs1 \<Longrightarrow> Q x r evs2 \<Longrightarrow> R r (evs1 @ evs2)"
  shows "behaves (bindIO m f) R"
proof (rule behavesI)
  fix w
  from m obtain r w1 evs1 where m1: "m w = Some (r, w1)" and c1: "now w \<le> now w1"
    and t1: "trace w1 = trace w @ evs1" and p1: "P r evs1"
    by (rule behavesD)
  show "\<exists>r w' evs. bindIO m f w = Some (r, w') \<and> now w \<le> now w' \<and> trace w' = trace w @ evs \<and> R r evs"
  proof (cases r)
    case (Inl e)
    with m1 c1 t1 p1 err show ?thesis
      by (auto simp: bindIO_def)
  next
    case (Inr x)
    from f [of x] obtain r2 w2 evs2 where m2: "f x w1 = Some (r2, w2)" and c2: "now w1 \<le> now w2"
      and t2: "trace w2 = trace w1 @ evs2" and p2: "Q x r2 evs2"
      by (rule behavesD)
    from p1 p2 Inr have "R r2 (evs1 @ evs2)"
      by (intro seq) simp_all
    with m1 m2 c1 c2 t1 t2 Inr show ?thesis
      by (auto simp: bindIO_def)
  qed
qed

lemma behaves_readContract:
  "behaves (readContract e rpc a fn args) (\<lambda>r evs. evs = [ReadContract rpc a fn args])"
  by (auto simp: behaves_def readContract_def Let_def split: prod.splits sum.splits)

lemma behaves_fetchHyperCoreSpotTotal:
  "behaves (fetchHyperCoreSpotTotal e user idx) (\<lambda>r evs. evs = [Fetch infoUrl user])"
  by (auto simp: behaves_def fetchHyperCoreSpotTotal_def Let_def
      split: prod.splits fetch_result.splits json_body.splits balances_value.splits)

lemma behaves_runStep:
  "behaves (runStep e stepName script args)
     (\<lambda>r evs. \<exists>outcome. evs = [Spawn stepName script args outcome] \<and> r = settle stepName outcome)"
  by (auto simp: behaves_def runStep_def Let_def split: prod.splits)

lemma behaves_liftE: "behaves (liftE x) (\<lambda>r evs. evs = [])"
  by (cases x) (simp_all add: liftE_def behaves_returnIO behaves_throwIO)

lemma behaves_spotTotalWei: "behaves (spotTotalWei e dec s) (\<lambda>r evs. evs = [])"
  by (auto simp: spotTotalWei_def behaves_returnIO behaves_liftE split: option.splits)

lemma behaves_fromEither: "behaves (fromEither x) (\<lambda>r evs. evs = [])"
  by (cases x) (simp_all add: fromEither_def behaves_returnIO behaves_throwIO)

lemma behaves_configOf: "behaves (configOf t) (\<lambda>r evs. evs = [])"
  by (cases t) (simp_all add: configOf_def behaves_returnIO behaves_throwIO)

lemma behaves_pollUntil:
  fixes read :: "'a io"
  assumes rd: "behaves read (\<lambda>r evs. \<forall>ev \<in> set evs. p ev)"
  shows "behaves (pollUntil e label read ok po) (poll_events label p)"
proof (rule behavesI)
  fix w
  let ?t = "timeoutOf po" and ?i = "intervalOf po" and ?w0 = "record_event (PollStart label) 0 w"
  let ?I = "\<lambda>w1. now w \<le> now w1
      \<and> (\<exists>body. trace w1 = trace w @ PollStart label # body
            \<and> (\<forall>ev \<in> set body. p ev \<or> (\<exists>ms. ev = Sleep ms)))"
  let ?Q = "\<lambda>y. now w \<le> now (snd y)
      \<and> (\<exists>evs. trace (snd y) = trace w @ evs \<and> poll_events label p (fst y) evs)"
  from pollLoop_terminates [OF behaves_steady [OF rd]] obtain r w'
    where run: "pollLoop e label read ok ?t ?i (now w) ?w0 = Some (r, w')"
    by blast
  have step: "?I w2 \<and> (\<exists>body. trace w2 = trace w @ PollStart label # body
            \<and> (\<forall>ev \<in> set body. p ev \<or> (\<exists>ms. ev = Sleep ms)))"
    if "?I w1" and "read w1 = Some (x, w2)" for w1 x w2
  proof -
    from rd obtain r1 w3 evs where "read w1 = Some (r1, w3)" "now w1 \<le> now w3"
      "trace w3 = trace w1 @ evs" "\<forall>ev \<in> set evs. p ev"
      by (rule behavesD)
    with that show ?thesis
      by auto
  qed
  have "?Q (r, w')"
    using run
  proof (rule pollLoop_rule [where I = ?I])
    show "?I ?w0" by simp
  next
    fix w1 v w2
    assume "?I w1" "read w1 = Some (Inr v, w2)"
    then have "?I w2" by (rule step [THEN conjunct1])
    then show "?I (sleep e ?i w2)"
      using now_sleep [of w2 e ?i] by auto
  next
    fix w1 v w2
    assume "?I w1" "read w1 = Some (Inr v, w2)"
    then have "?I w2" by (rule step [THEN conjunct1])
    then show "?Q (Inr v, w2)"
      by (auto simp: poll_events_def)
  next
    fix w1 err w2
    assume "?I w1" "read w1 = Some (Inl err, w2)"
    then have "?I w2" by (rule step [THEN conjunct1])
    then show "?Q (Inl err, w2)"
      by (auto simp: poll_events_def)
  next
    fix w1 v w2
    assume "?I w1" "read w1 = Some (Inr v, w2)"
    then have "?I w2" by (rule step [THEN conjunct1])
    then obtain body where c: "now w \<le> now w2"
      and b: "trace w2 = trace w @ PollStart label # body"
      and p: "\<forall>ev \<in> set body. p ev \<or> (\<exists>ms. ev = Sleep ms)"
      by blast
    have "poll_events label p (Inl (Timeout label) :: error + 'a)
        (PollStart label # body @ [PollTimedOut label])"
      unfolding poll_events_def using p by blast
    with c b show "?Q (Inl (Timeout label) :: error + 'a, record_event (PollTimedOut label) 0 w2)"
      by simp
  qed
  with run show "\<exists>r w' evs. pollUntil e label read ok po w = Some (r, w') \<and> now w \<le> now w'
      \<and> trace w' = trace w @ evs \<and> poll_events label p r evs"
    unfolding pollUntil_unfold by auto
qed

subsection \<open>A failed hop ends the run\<close>

lemma settle_Inr: "settle stepName outcome = Inr () \<longleftrightarrow> \<not> executor_failed outcome"
  by (auto simp: settle_def settle_exit_def executor_failed_def
      split: child_outcome.splits option.splits)

lemma settle_cases:
  obtains "\<not> executor_failed outcome" "settle stepName outcome = Inr ()"
  | err where "executor_failed outcome" "settle stepName outcome = Inl err"
  using settle_Inr [of stepName outcome] by (cases "settle stepName outcome") auto

lemma quiet_Nil [simp]: "quiet []"
  by (simp add: quiet_def)

lemma quiet_append [simp]: "quiet (xs @ ys) \<longleftrightarrow> quiet xs \<and> quiet ys"
  by (auto simp: quiet_def)

lemma fail_last_quiet: "quiet evs \<Longrightarrow> fail_last r evs"
  by (simp add: fail_last_def)

lemma fail_last_Inr: "fail_last (Inr x) evs \<Longrightarrow> quiet evs"
  by (auto simp: fail_last_def)

lemma fail_last_Inl: "fail_last (Inl err :: error + 'a) evs \<Longrightarrow> fail_last (Inl err :: error + 'b) evs"
  by (auto simp: fail_last_def)

lemma fail_last_append: "quiet evs1 \<Longrightarrow> fail_last r evs2 \<Longrightarrow> fail_last r (evs1 @ evs2)"
  unfolding fail_last_def
proof (elim disjE exE conjE)
  assume "quiet evs1" "quiet evs2"
  then show "quiet (evs1 @ evs2) \<or> (\<exists>pre ev err. evs1 @ evs2 = pre @ [ev] \<and> quiet pre \<and> hop_failed ev
      \<and> rejection ev = Inl err \<and> r = Inl err)"
    by simp
next
  fix pre ev err
  assume "quiet evs1" "evs2 = pre @ [ev]" "quiet pre" "hop_failed ev" "rejection ev = Inl err"
    "r = Inl err"
  then have "evs1 @ evs2 = (evs1 @ pre) @ [ev] \<and> quiet (evs1 @ pre) \<and> hop_failed ev
      \<and> rejection ev = Inl err \<and> r = Inl err"
    by simp
  then show "quiet (evs1 @ evs2) \<or> (\<exists>pre ev err. evs1 @ evs2 = pre @ [ev] \<and> quiet pre \<and> hop_failed ev
      \<and> rejection ev = Inl err \<and> r = Inl err)"
    by blast
qed

lemma fail_last_bindIO [intro!]:
  assumes "behaves m fail_last" and "\<And>x. behaves (f x) fail_last"
  shows "behaves (bindIO m f) fail_last"
  using assms(1)
proof (rule behaves_bindIO [where Q = "\<lambda>x. fail_last"])
  show "behaves (f x) fail_last" for x by (rule assms(2))
  show "fail_last (Inl err) evs" if "fail_last (Inl err) evs" for err evs
    using that by (rule fail_last_Inl)
  show "fail_last r (evs1 @ evs2)" if "fail_last (Inr x) evs1" "fail_last r evs2" for x evs1 r evs2
    using that by (intro fail_last_append fail_last_Inr)
qed

lemma fail_last_returnIO [intro!]: "behaves (returnIO x) fail_last"
  by (simp add: behaves_returnIO fail_last_quiet)

lemma fail_last_throwIO [intro!]: "behaves (throwIO err) fail_last"
  by (simp add: behaves_throwIO fail_last_quiet)

lemma fail_last_readContract [intro!]: "behaves (readContract e rpc a fn args) fail_last"
  by (rule behaves_weaken [OF behaves_readContract]) (simp add: fail_last_quiet quiet_def)

lemma fail_last_fetch [intro!]: "behaves (fetchHyperCoreSpotTotal e user idx) fail_last"
  by (rule behaves_weaken [OF behaves_fetchHyperCoreSpotTotal]) (simp add: fail_last_quiet quiet_def)

lemma fail_last_liftE [intro!]: "behaves (liftE x) fail_last"
  by (rule behaves_weaken [OF behaves_liftE]) (simp add: fail_last_quiet)

lemma fail_last_spotTotalWei [intro!]: "behaves (spotTotalWei e dec s) fail_last"
  by (rule behaves_weaken [OF behaves_spotTotalWei]) (simp add: fail_last_quiet)

lemma fail_last_fromEither [intro!]: "behaves (fromEither x) fail_last"
  by (rule behaves_weaken [OF behaves_fromEither]) (simp add: fail_last_quiet)

lemma fail_last_configOf [intro!]: "behaves (configOf t) fail_last"
  by (rule behaves_weaken [OF behaves_configOf]) (simp add: fail_last_quiet)

lemma fail_last_runStep [intro!]: "behaves (runStep e stepName script args) fail_last"
proof (rule behaves_weaken [OF behaves_runStep])
  fix r :: "error + unit" and evs
  assume "\<exists>outcome. evs = [Spawn stepName script args outcome] \<and> r = settle stepName outcome"
  then obtain outcome where evs: "evs = [Spawn stepName script args outcome]"
    and r: "r = settle stepName outcome"
    by blast
  show "fail_last r evs"
  proof (cases rule: settle_cases [of outcome stepName])
    case 1
    with evs show ?thesis
      by (simp add: fail_last_def quiet_def)
  next
    case (2 err)
    with evs r have "evs = [] @ [Spawn stepName script args outcome] \<and> quiet []
        \<and> hop_failed (Spawn stepName script args outcome)
        \<and> rejection (Spawn stepName script args outcome) = Inl err \<and> r = Inl err"
      by simp
    then show ?thesis
      unfolding fail_last_def by blast
  qed
qed

lemma quiet_read_readContract:
  "behaves (readContract e rpc a fn args) (\<lambda>r evs. \<forall>ev \<in> set evs. \<not> hop_failed ev)"
  by (rule behaves_weaken [OF behaves_readContract]) simp

lemma quiet_read_spot:
  "behaves (bindIO (fetchHyperCoreSpotTotal e user idx) (spotTotalWei e dec))
     (\<lambda>r evs. \<forall>ev \<in> set evs. \<not> hop_failed ev)"
  by (rule behaves_bindIO [OF behaves_fetchHyperCoreSpotTotal behaves_spotTotalWei]) simp_all

lemma fail_last_pollUntil:
  assumes "behaves read (\<lambda>r evs. \<forall>ev \<in> set evs. \<not> hop_failed ev)"
  shows "behaves (pollUntil e label read ok po) fail_last"
proof (rule behaves_weaken [OF behaves_pollUntil [OF assms]])
  fix r :: "error + 'a" and evs
  assume "poll_events label (\<lambda>ev. \<not> hop_failed ev) r evs"
  then obtain body where body: "\<forall>ev \<in> set body. \<not> hop_failed ev \<or> (\<exists>ms. ev = Sleep ms)"
    and evs: "evs = PollStart label # body
            \<or> evs = PollStart label # body @ [PollTimedOut label] \<and> r = Inl (Timeout label)"
    unfolding poll_events_def by blast
  from body have q: "quiet (PollStart label # body)"
    by (auto simp: quiet_def)
  from evs show "fail_last r evs"
  proof
    assume "evs = PollStart label # body"
    with q show ?thesis by (simp add: fail_last_quiet)
  next
    assume "evs = PollStart label # body @ [PollTimedOut label] \<and> r = Inl (Timeout label)"
    with q have "evs = (PollStart label # body) @ [PollTimedOut label] \<and> quiet (PollStart label # body)
        \<and> hop_failed (PollTimedOut label) \<and> rejection (PollTimedOut label) = Inl (Timeout label)
        \<and> r = Inl (Timeout label)"
      by simp
    then show ?thesis
      unfolding fail_last_def by blast
  qed
qed

lemmas fail_last_polls [intro!] =
  fail_last_pollUntil [OF quiet_read_readContract] fail_last_pollUntil [OF quiet_read_spot]

lemma fail_last_coreToBsc_step1: "behaves (coreToBsc_step1 e i cfg dec) fail_last"
  unfolding coreToBsc_step1_def Let_def by (intro fail_last_bindIO) auto

lemma fail_last_coreToBsc_step2: "behaves (coreToBsc_step2 e i cfg dec) fail_last"
  unfolding coreToBsc_step2_def Let_def by (intro fail_last_bindIO) auto

lemma fail_last_coreToBsc_step3: "behaves (coreToBsc_step3 e i cfg) fail_last"
  unfolding coreToBsc_step3_def Let_def by (intro fail_last_bindIO) auto

lemma fail_last_main_flowHypeCoreToBsc: "behaves (main_flowHypeCoreToBsc e) fail_last"
  unfolding main_flowHypeCoreToBsc_def
  by (intro fail_last_bindIO fail_last_fromEither fail_last_configOf fail_last_readContract
      fail_last_coreToBsc_step1 fail_last_coreToBsc_step2 fail_last_coreToBsc_step3)

lemma fail_last_flow_step1: "behaves (flow_step1 e i cfg) fail_last"
  unfolding flow_step1_def Let_def by (intro fail_last_bindIO) auto

lemma fail_last_flow_step2: "behaves (flow_step2 e i cfg) fail_last"
  unfolding flow_step2_def Let_def by (intro fail_last_bindIO) auto

lemma fail_last_flow_step3: "behaves (flow_step3 e i cfg dec) fail_last"
  unfolding flow_step3_def Let_def by (intro fail_last_bindIO) auto

lemma fail_last_main_flow: "behaves (main_flow e) fail_last"
  unfolding main_flow_def
  by (intro fail_last_bindIO fail_last_fromEither fail_last_configOf
      fail_last_flow_step1 fail_last_flow_step2 fail_last_flow_step3)

lemma fail_last_elim:
  fixes r :: "error + unit"
  assumes fl: "fail_last r evs" and split: "evs = pre @ ev # post" and failed: "hop_failed ev"
  shows "post = [] \<and> r = rejection ev"
proof -
  from split failed have "\<not> quiet evs"
    by (auto simp: quiet_def)
  with fl obtain pre' ev' err where evs: "evs = pre' @ [ev']" and q: "quiet pre'"
    and r: "rejection ev' = Inl err" "r = Inl err"
    unfolding fail_last_def by blast
  have "post = []"
  proof (rule ccontr)
    assume "post \<noteq> []"
    then have "butlast (pre @ ev # post) = pre @ ev # butlast post"
      by (simp add: butlast_append)
    with split have "butlast evs = pre @ ev # butlast post"
      by simp
    moreover from evs have "butlast evs = pre'"
      by simp
    ultimately have "pre' = pre @ ev # butlast post"
      by simp
    with q failed show False
      by (simp add: quiet_def)
  qed
  with split evs have "ev' = ev"
    by simp
  with r \<open>post = []\<close> show ?thesis
    by simp
qed

lemma lower_CRCLd: "normalizeTokenName ''CRCLd'' = ''crcld''"
  by code_simp

lemma lower_to: "toLowerCase ''0xABCD'' = ''0xabcd''" "toLowerCase ''0xabcd'' = ''0xabcd''"
  by code_simp+

lemma demo_args:
  "getArg [''node'', ''flow.ts'', ''CRCLd'', ''--to'', ''0xABCD'', ''--amount'', ''0.5''] ''--token'' = None"
  "getArg [''node'', ''flow.ts'', ''CRCLd'', ''--to'', ''0xABCD'', ''--amount'', ''0.5''] ''--to'' = Some ''0xABCD''"
  "getArg [''node'', ''flow.ts'', ''CRCLd'', ''--to'', ''0xABCD'', ''--amount'', ''0.5''] ''--amount'' = Some ''0.5''"
  "getArg [''node'', ''flow.ts'', ''CRCLd'', ''--to'', ''0xABCD'', ''--amount'', ''0.5''] ''--spot-send-amount'' = None"
  "getArg [''node'', ''flow.ts'', ''CRCLd'', ''--to'', ''0xABCD'', ''--amount'', ''0.5''] ''--bridge-amount'' = None"
  "getArg [''node'', ''flow.ts'', ''CRCLd'', ''--to'', ''0xABCD'', ''--amount'', ''0.5''] ''--unwrap-amount'' = None"
  "getArg [''node'', ''flow.ts'', ''CRCLd'', ''--to'', ''0xABCD'', ''--amount'', ''0.5''] ''--wrap-amount'' = None"
  "getArg [''node'', ''flow.ts'', ''CRCLd'', ''--to'', ''0xABCD'', ''--amount'', ''0.5''] ''--send-amount'' = None"
  "getArg [''node'', ''flow.ts'', ''CRCLd'', ''--to'', ''0xABCD'', ''--amount'', ''0.5''] ''--core-amount'' = None"
  "getPositionalArg [''node'', ''flow.ts'', ''CRCLd'', ''--to'', ''0xABCD'', ''--amount'', ''0.5''] 0 = Some ''CRCLd''"
  "hasFlag [''node'', ''flow.ts'', ''CRCLd'', ''--to'', ''0xABCD'', ''--amount'', ''0.5''] ''--dry-run'' = False"
  by code_simp+

lemma demo_inputs:
  "inputs_flowHypeCoreToBsc failing_env =
     Inr \<lparr>token = ''CRCLd'', to = ''0xABCD'', dryRun = [], isDryRun = False,
          srcRpcUrl = ''https://bsc.example'', account = ''0xabcd'',
          tokenMeta = Config (snd (hd TOKENS)),
          spotSendAmount = ''0.5'', bridgeAmount = ''0.5'', unwrapAmount = ''0.5''\<rparr>"
  by (simp add: inputs_flowHypeCoreToBsc_def failing_env_def demo_env_def quiet_env_def
      demo_args orElse_def require_def bindE_def requireToken_def lower_CRCLd lower_to
      lookupToken_def TOKENS_def fromLibrary_def)

text \<open>
  Claim C1. Every run of either flow script settles. If a hop fails in the run (a child
  process that does not exit with code 0, or a poll that times out), the failure is the
  last thing that happens in the run: no later step is spawned, no read or timer follows,
  and \<open>main\<close> rejects with the error of the failed call.
\<close>

theorem failed_hop_ends_run:
  "(\<exists>r w' evs. main_flowHypeCoreToBsc e w = Some (r, w') \<and> trace w' = trace w @ evs
      \<and> (\<forall>pre ev post. evs = pre @ ev # post \<and> hop_failed ev \<longrightarrow> post = [] \<and> r = rejection ev))
   \<and> (\<exists>r w' evs. main_flow e w = Some (r, w') \<and> trace w' = trace w @ evs
      \<and> (\<forall>pre ev post. evs = pre @ ev # post \<and> hop_failed ev \<longrightarrow> post = [] \<and> r = rejection ev))"
proof
  from fail_last_main_flowHypeCoreToBsc [of e] obtain r w' evs
    where "main_flowHypeCoreToBsc e w = Some (r, w')" "trace w' = trace w @ evs" "fail_last r evs"
    by (rule behavesD)
  then show "\<exists>r w' evs. main_flowHypeCoreToBsc e w = Some (r, w') \<and> trace w' = trace w @ evs
      \<and> (\<forall>pre ev post. evs = pre @ ev # post \<and> hop_failed ev \<longrightarrow> post = [] \<and> r = rejection ev)"
    using fail_last_elim by blast
next
  from fail_last_main_flow [of e] obtain r w' evs
    where "main_flow e w = Some (r, w')" "trace w' = trace w @ evs" "fail_last r evs"
    by (rule behavesD)
  then show "\<exists>r w' evs. main_flow e w = Some (r, w') \<and> trace w' = trace w @ evs
      \<and> (\<forall>pre ev post. evs = pre @ ev # post \<and> hop_failed ev \<longrightarrow> post = [] \<and> r = rejection ev)"
    using fail_last_elim by blast
qed

lemma failing_run:
  "main_flowHypeCoreToBsc failing_env start =
     Some (Inl (StepExit ''hypeCoreToHypeEvm'' (Some 1)),
       \<lparr>now = 0,
        trace =
          [ReadContract hyperEvmRpcUrl ''0xe74aA6C4050A15790525eB11cc4562c664dC67C9'' ''decimals'' [],
           Fetch infoUrl ''0xabcd'',
           ReadContract hyperEvmRpcUrl ''0xe74aA6C4050A15790525eB11cc4562c664dC67C9'' ''balanceOf'' [''0xabcd''],
           Spawn ''hypeCoreToHypeEvm'' ''src/hypeCoreToHypeEvm.ts'' [''CRCLd'', ''--amount'', ''0.5'']
             (ChildExit (Some 1) None)]\<rparr>)"
  apply (simp only: main_flowHypeCoreToBsc_def demo_inputs)
  apply (simp add: configOf_def TOKENS_def fromEither_def
      coreToBsc_step1_def bindIO_def returnIO_def readContract_def fetchHyperCoreSpotTotal_def
      runStep_def settle_def settle_exit_def res_ok_def
      failing_env_def demo_env_def quiet_env_def start_def record_event_def)
  done

theorem failed_hop_ends_run_witness:
  "main_flowHypeCoreToBsc failing_env start =
     Some (rejection (Spawn ''hypeCoreToHypeEvm'' ''src/hypeCoreToHypeEvm.ts''
                        [''CRCLd'', ''--amount'', ''0.5''] (ChildExit (Some 1) None)),
       \<lparr>now = 0,
        trace =
          [ReadContract hyperEvmRpcUrl ''0xe74aA6C4050A15790525eB11cc4562c664dC67C9'' ''decimals'' [],
           Fetch infoUrl ''0xabcd'',
           ReadContract hyperEvmRpcUrl ''0xe74aA6C4050A15790525eB11cc4562c664dC67C9'' ''balanceOf'' [''0xabcd''],
           Spawn ''hypeCoreToHypeEvm'' ''src/hypeCoreToHypeEvm.ts'' [''CRCLd'', ''--amount'', ''0.5'']
             (ChildExit (Some 1) None)]\<rparr>)"
proof -
  let ?ev = "Spawn ''hypeCoreToHypeEvm'' ''src/hypeCoreToHypeEvm.ts''
                        [''CRCLd'', ''--amount'', ''0.5''] (ChildExit (Some 1) None)"
  let ?pre = "[ReadContract hyperEvmRpcUrl ''0xe74aA6C4050A15790525eB11cc4562c664dC67C9'' ''decimals'' [],
           Fetch infoUrl ''0xabcd'',
           ReadContract hyperEvmRpcUrl ''0xe74aA6C4050A15790525eB11cc4562c664dC67C9'' ''balanceOf'' [''0xabcd'']]"
  from failed_hop_ends_run [of failing_env start, THEN conjunct1] obtain r w' evs
    where m: "main_flowHypeCoreToBsc failing_env start = Some (r, w')"
      and t: "trace w' = trace start @ evs"
      and a: "\<And>pre ev post. evs = pre @ ev # post \<and> hop_failed ev \<Longrightarrow> post = [] \<and> r = rejection ev"
    by blast
  from m failing_run have w': "w' = \<lparr>now = 0, trace = ?pre @ [?ev]\<rparr>"
    by simp
  with t have "evs = ?pre @ ?ev # []"
    by (simp add: start_def)
  moreover have "hop_failed ?ev"
    by (simp add: executor_failed_def)
  ultimately have "r = rejection ?ev"
    using a [of ?pre ?ev "[]"] by blast
  with m w' show ?thesis
    by (simp only: append.simps)
qed

subsection \<open>The destination must be the signer\<close>

lemma bindE_Inr: "bindE r f = Inr y \<longleftrightarrow> (\<exists>v. r = Inr v \<and> f v = Inr y)"
  by (cases r) (simp_all add: bindE_def)

lemma bindE_Inl: "bindE r f = Inl err \<longleftrightarrow> r = Inl err \<or> (\<exists>v. r = Inr v \<and> f v = Inl err)"
  by (cases r) (simp_all add: bindE_def)

lemma require_Inr: "require s err = Inr v \<longleftrightarrow> s = Some v \<and> v \<noteq> []"
  by (auto simp: require_def split: option.splits)

lemma require_Inl: "require s err = Inl err' \<longleftrightarrow> err' = err \<and> (s = None \<or> s = Some [])"
  by (auto simp: require_def split: option.splits)

lemma fromLibrary_Inr: "fromLibrary r = Inr v \<longleftrightarrow> r = Inr v"
  by (cases r) (simp_all add: fromLibrary_def)

lemma fromLibrary_Inl: "fromLibrary r = Inl err \<longleftrightarrow> (\<exists>msg. r = Inl msg \<and> err = LibraryError msg)"
  by (cases r) (auto simp: fromLibrary_def)

lemma requireToken_Inl: "requireToken s = Inl err \<Longrightarrow> input_error err"
  by (auto simp: requireToken_def bindE_Inl require_Inl input_error_def split: option.splits)

lemma inputs_flowHypeCoreToBsc_Inr:
  assumes "inputs_flowHypeCoreToBsc e = Inr i"
  shows "orElse (getArg (argv e) ''--token'') (getPositionalArg (argv e) 0) = Some (token i)"
    and "getArg (argv e) ''--to'' = Some (to i)"
    and "orElse (getArg (argv e) ''--spot-send-amount'') (getArg (argv e) ''--amount'') = Some (spotSendAmount i)"
    and "orElse (getArg (argv e) ''--bridge-amount'') (getArg (argv e) ''--amount'') = Some (bridgeAmount i)"
    and "orElse (getArg (argv e) ''--unwrap-amount'') (getArg (argv e) ''--amount'') = Some (unwrapAmount i)"
    and "dryRun i = (if hasFlag (argv e) ''--dry-run'' then [''--dry-run''] else [])"
    and "isDryRun i = hasFlag (argv e) ''--dry-run''"
    and "\<exists>key. PRIVATE_KEY e = Some key \<and> privateKeyToAccount e key = Inr (account i)"
    and "toLowerCase (to i) = toLowerCase (account i)"
  using assms
  by (auto simp: inputs_flowHypeCoreToBsc_def bindE_Inr require_Inr fromLibrary_Inr Let_def
      split: if_splits)

lemma inputs_flow_Inr:
  assumes "inputs_flow e = Inr i"
  shows "orElse (getArg (argv e) ''--token'') (getPositionalArg (argv e) 0) = Some (token i)"
    and "getArg (argv e) ''--to'' = Some (to i)"
    and "orElse (getArg (argv e) ''--wrap-amount'') (getArg (argv e) ''--amount'') = Some (wrapAmount i)"
    and "orElse (getArg (argv e) ''--send-amount'') (getArg (argv e) ''--amount'') = Some (sendAmount i)"
    and "orElse (getArg (argv e) ''--core-amount'') (getArg (argv e) ''--amount'') = Some (coreAmount i)"
    and "dryRun i = (if hasFlag (argv e) ''--dry-run'' then [''--dry-run''] else [])"
    and "isDryRun i = hasFlag (argv e) ''--dry-run''"
    and "\<exists>key. PRIVATE_KEY e = Some key \<and> privateKeyToAccount e key = Inr (account i)"
    and "toLowerCase (to i) = toLowerCase (account i)"
  using assms
  by (auto simp: inputs_flow_def bindE_Inr require_Inr fromLibrary_Inr Let_def
      split: if_splits)

lemma inputs_flowHypeCoreToBsc_Inl:
  assumes "inputs_flowHypeCoreToBsc e = Inl err"
  shows "input_error err \<or> (\<exists>key msg. PRIVATE_KEY e = Some key \<and> privateKeyToAccount e key = Inl msg)"
  using assms
  by (auto simp: inputs_flowHypeCoreToBsc_def bindE_Inl bindE_Inr require_Inl require_Inr Let_def
      fromLibrary_Inl fromLibrary_Inr input_error_def dest: requireToken_Inl split: if_splits)

lemma inputs_flow_Inl:
  assumes "inputs_flow e = Inl err"
  shows "input_error err \<or> (\<exists>key msg. PRIVATE_KEY e = Some key \<and> privateKeyToAccount e key = Inl msg)"
  using assms
  by (auto simp: inputs_flow_def bindE_Inl bindE_Inr require_Inl require_Inr Let_def
      fromLibrary_Inl fromLibrary_Inr input_error_def dest: requireToken_Inl split: if_splits)

lemma throwIO_apply: "throwIO err w = Some (Inl err, w)"
  by (simp add: throwIO_def)

text \<open>
  Claim C2. In both flow scripts, when \<open>--to\<close> and the address derived from the private key
  differ after lowercasing, \<open>main\<close> rejects in the world it started in: no contract read, no
  request to the info endpoint and no child process has happened. The error is that of an
  input check; when the other inputs pass their checks it is the error that names \<open>--to\<close>
  and the signer.
\<close>

theorem destination_must_be_signer:
  assumes "getArg (argv e) ''--to'' = Some dest"
    and "PRIVATE_KEY e = Some key"
    and "privateKeyToAccount e key = Inr signer"
    and "toLowerCase dest \<noteq> toLowerCase signer"
  shows "(\<exists>err. main_flowHypeCoreToBsc e w = Some (Inl err, w) \<and> input_error err)
       \<and> (\<exists>err. main_flow e w = Some (Inl err, w) \<and> input_error err)
       \<and> (orElse (getArg (argv e) ''--token'') (getPositionalArg (argv e) 0) = Some tok
            \<and> requireToken (Some tok) = Inr meta
            \<and> isAddress e dest
            \<and> (\<forall>n. getArg (argv e) n \<noteq> Some [])
            \<and> getArg (argv e) ''--amount'' = Some amt
            \<and> SRC_RPC_URL e = Some url \<and> url \<noteq> [] \<and> key \<noteq> []
          \<longrightarrow> main_flowHypeCoreToBsc e w = Some (Inl (ToSignerMismatch dest signer), w)
              \<and> main_flow e w = Some (Inl (ToSignerMismatch dest signer), w))"
proof (intro conjI impI)
  show "\<exists>err. main_flowHypeCoreToBsc e w = Some (Inl err, w) \<and> input_error err"
  proof (cases "inputs_flowHypeCoreToBsc e")
    case (Inl err)
    with assms have "input_error err"
      by (auto dest: inputs_flowHypeCoreToBsc_Inl)
    with Inl show ?thesis
      by (simp add: main_flowHypeCoreToBsc_def fromEither_def throwIO_apply)
  next
    case (Inr i)
    from inputs_flowHypeCoreToBsc_Inr(2,8,9) [OF Inr] assms have False
      by auto
    then show ?thesis ..
  qed
  show "\<exists>err. main_flow e w = Some (Inl err, w) \<and> input_error err"
  proof (cases "inputs_flow e")
    case (Inl err)
    with assms have "input_error err"
      by (auto dest: inputs_flow_Inl)
    with Inl show ?thesis
      by (simp add: main_flow_def fromEither_def throwIO_apply)
  next
    case (Inr i)
    from inputs_flow_Inr(2,8,9) [OF Inr] assms have False
      by auto
    then show ?thesis ..
  qed
next
  assume a: "orElse (getArg (argv e) ''--token'') (getPositionalArg (argv e) 0) = Some tok
            \<and> requireToken (Some tok) = Inr meta
            \<and> isAddress e dest
            \<and> (\<forall>n. getArg (argv e) n \<noteq> Some [])
            \<and> getArg (argv e) ''--amount'' = Some amt
            \<and> SRC_RPC_URL e = Some url \<and> url \<noteq> [] \<and> key \<noteq> []"
  then have tok: "tok \<noteq> []"
    by (auto simp: requireToken_def bindE_Inr require_Inr)
  from a assms have ne: "dest \<noteq> []" "amt \<noteq> []"
    by auto
  have amounts: "require (orElse (getArg (argv e) n) (Some amt)) err = Inr
      (case getArg (argv e) n of None \<Rightarrow> amt | Some v \<Rightarrow> v)" for n err
    using a ne by (auto simp: require_def orElse_def split: option.splits)
  have req: "v \<noteq> [] \<Longrightarrow> require (Some v) err = Inr v" for v err
    by (simp add: require_def)
  from a assms tok ne show "main_flowHypeCoreToBsc e w = Some (Inl (ToSignerMismatch dest signer), w)"
    by (simp add: main_flowHypeCoreToBsc_def inputs_flowHypeCoreToBsc_def amounts Let_def
        req bindE_def fromEither_def fromLibrary_def throwIO_apply)
  from a assms tok ne show "main_flow e w = Some (Inl (ToSignerMismatch dest signer), w)"
    by (simp add: main_flow_def inputs_flow_def amounts Let_def req bindE_def fromEither_def
        fromLibrary_def throwIO_apply)
qed

lemma findIndex_bound: "findIndex p xs = Some i \<Longrightarrow> i < length xs"
  by (induction xs arbitrary: i) (auto split: if_splits)

lemma getArg_mem: "getArg args n = Some v \<Longrightarrow> v \<in> set args"
  by (auto simp: getArg_def at_index_def split: option.splits if_splits)

theorem destination_must_be_signer_witness:
  "main_flowHypeCoreToBsc mismatch_env start
     = Some (Inl (ToSignerMismatch ''0xABCD'' ''0x9999''), start)
   \<and> main_flow mismatch_env start
     = Some (Inl (ToSignerMismatch ''0xABCD'' ''0x9999''), start)"
proof -
  let ?args = "[''node'', ''flow.ts'', ''CRCLd'', ''--to'', ''0xABCD'', ''--amount'', ''0.5'']"
  have argv: "argv mismatch_env = ?args"
    by (simp add: mismatch_env_def demo_env_def quiet_env_def)
  have h1: "getArg (argv mismatch_env) ''--to'' = Some ''0xABCD''"
    by (simp add: argv demo_args)
  have h2: "PRIVATE_KEY mismatch_env = Some ''0x01''"
    by (simp add: mismatch_env_def demo_env_def quiet_env_def)
  have h3: "privateKeyToAccount mismatch_env ''0x01'' = Inr ''0x9999''"
    by (simp add: mismatch_env_def)
  have h4: "toLowerCase ''0xABCD'' \<noteq> toLowerCase ''0x9999''"
    by code_simp
  have "getArg ?args n \<noteq> Some []" for n
    using getArg_mem [of ?args n "[]"] by auto
  then have h5: "orElse (getArg (argv mismatch_env) ''--token'') (getPositionalArg (argv mismatch_env) 0)
        = Some ''CRCLd''
      \<and> requireToken (Some ''CRCLd'') = Inr (Config (snd (hd TOKENS)))
      \<and> isAddress mismatch_env ''0xABCD''
      \<and> (\<forall>n. getArg (argv mismatch_env) n \<noteq> Some [])
      \<and> getArg (argv mismatch_env) ''--amount'' = Some ''0.5''
      \<and> SRC_RPC_URL mismatch_env = Some ''https://bsc.example'' \<and> ''https://bsc.example'' \<noteq> []
      \<and> ''0x01'' \<noteq> []"
    by (simp add: argv demo_args orElse_def requireToken_def require_def bindE_def lower_CRCLd
        lookupToken_def TOKENS_def)
      (simp add: mismatch_env_def demo_env_def quiet_env_def)
  from destination_must_be_signer [OF h1 h2 h3 h4, THEN conjunct2, THEN conjunct2, rule_format, OF h5]
  show ?thesis .
qed

subsection \<open>Dry runs\<close>


lemma spawned_append [simp]: "spawned (xs @ ys) = spawned xs @ spawned ys"
  by (induction xs rule: spawned.induct) simp_all



subsubsection \<open>Rules for \<open>only\<close>\<close>









subsubsection \<open>Rules for \<open>planned\<close>\<close>





































end
